theory Spec2Isabelle
  imports Complex_Main "HOL-Library.Sublist"
begin

section \<open>Data model: tables, columns and cells\<close>

text \<open>
  The transformers of \<^verbatim>\<open>experiments/model_lr.py\<close> work on pandas data frames. A frame
  is modelled as the list of its columns in column order; a column carries its name, its
  dtype tag and its cells in row order. A cell is \<open>None\<close> when the entry is missing
  (NaN or None in pandas) and \<open>Some v\<close> otherwise.

  Column names of a frame are taken to be pairwise distinct (\<open>wf_table\<close>); the row
  index plays no part in the code and is left out.
\<close>

datatype dtype = Int64 | Float64 | UInt8 | Object

text \<open>
  A cell holds a string or a number. A number is kept by its value: Python compares and
  hashes an int and a float of the same value as one key (\<^verbatim>\<open>1 == 1.0\<close>), which is
  what pandas counts and looks up by, and none of the transformers computes with
  numbers. Whether a column holds ints or floats is said by its dtype tag.
\<close>

datatype val = NumV rat | StrV string

type_synonym cell = "val option"

datatype column = Column (cname: string) (ctype: dtype) (cells: "cell list")

type_synonym table = "column list"

datatype error = KeyError | IndexError | TypeError | AttributeError | ValueError

definition wf_table :: "table \<Rightarrow> bool" where
  "wf_table X = distinct (map cname X)"

definition is_numeric :: "dtype \<Rightarrow> bool" where
  "is_numeric t = (t = Int64 \<or> t = Float64 \<or> t = UInt8)"

section \<open>The pandas operations the code calls\<close>

text \<open>\<^verbatim>\<open>X.columns\<close>: the column labels, in order.\<close>

definition columns_of :: "table \<Rightarrow> string list" where
  "columns_of X = map cname X"

text \<open>
  \<^verbatim>\<open>X.select_dtypes(include=[t])\<close> for a tag \<open>t\<close> that names one dtype, as the two
  tags of the pipeline do (\<^verbatim>\<open>'int64'\<close> and \<^verbatim>\<open>'object'\<close>): the columns whose dtype
  is \<open>t\<close>, order kept. Other strings that pandas reads as a family of dtypes or refuses
  are not part of the model.
\<close>

definition select_dtypes :: "dtype \<Rightarrow> table \<Rightarrow> table" where
  "select_dtypes t X = filter (\<lambda>c. ctype c = t) X"

text \<open>
  \<^verbatim>\<open>X[column]\<close> on a frame whose labels are pairwise distinct (\<open>wf_table\<close>): the
  column with that label; a missing label raises KeyError. What pandas does for a label
  that occurs twice is not modelled, and the facts below that read a column by its label
  are stated for frames with distinct labels.
\<close>

fun getitem :: "table \<Rightarrow> string \<Rightarrow> error + column" where
  "getitem [] n = Inl KeyError"
| "getitem (c # X) n = (if cname c = n then Inr c else getitem X n)"

text \<open>
  \<^verbatim>\<open>X[column] = s\<close> for a label the frame already has: the column is replaced in
  place, its position kept.
\<close>

fun setitem :: "table \<Rightarrow> string \<Rightarrow> column \<Rightarrow> table" where
  "setitem [] n s = []"
| "setitem (c # X) n s = (if cname c = n then s # X else c # setitem X n s)"

text \<open>
  \<^verbatim>\<open>s.fillna(v)\<close>: a column without missing entries comes back as it is; otherwise
  every missing entry becomes \<open>v\<close> and the others stay. An object column stays an object
  column and a numeric column filled with a number keeps its dtype; a numeric column
  filled with a string becomes an object column.
\<close>

fun is_number :: "val \<Rightarrow> bool" where
  "is_number (NumV q) = True"
| "is_number (StrV s) = False"

definition fillna :: "val \<Rightarrow> column \<Rightarrow> column" where
  "fillna v c =
     (if None \<notin> set (cells c) then c
      else Column (cname c) (if ctype c = Object \<or> is_number v then ctype c else Object)
             (map (\<lambda>x. case x of None \<Rightarrow> Some v | Some w \<Rightarrow> Some w) (cells c)))"

text \<open>
  \<^verbatim>\<open>s.value_counts()\<close>: the distinct non-missing values with their number of
  occurrences, the most frequent first. pandas collects the values in order of first
  occurrence and sorts them by count with numpy's default sort. Up to 16 entries that
  sort is an insertion sort, which is stable, so equally frequent values stay in order of
  first occurrence. Beyond that it is an unstable quicksort, and the order it leaves
  among equally frequent values is the parameter \<open>tie\<close> of the model: a rank for every
  value of the column, by which equally frequent values are ordered. Every order of the
  ties comes from some \<open>tie\<close>, and what is proved below holds for all of them.
\<close>

definition present :: "cell list \<Rightarrow> val list" where
  "present xs = concat (map (\<lambda>x. case x of None \<Rightarrow> [] | Some v \<Rightarrow> [v]) xs)"

fun uniq :: "'a list \<Rightarrow> 'a list" where
  "uniq [] = []"
| "uniq (x # xs) = x # uniq (filter (\<lambda>y. y \<noteq> x) xs)"

definition value_counts :: "(cell list \<Rightarrow> val \<Rightarrow> nat) \<Rightarrow> cell list \<Rightarrow> (val \<times> nat) list" where
  "value_counts tie xs =
     (let pairs = map (\<lambda>v. (v, count_list (present xs) v)) (uniq (present xs)) in
      sort_key (\<lambda>p. - int (snd p))
        (if length pairs \<le> 16 then pairs else sort_key (\<lambda>p. tie xs (fst p)) pairs))"

text \<open>The rank that leaves all ties in order of first occurrence.\<close>

definition first_seen :: "cell list \<Rightarrow> val \<Rightarrow> nat" where
  "first_seen xs v = 0"

text \<open>\<^verbatim>\<open>.index.tolist()\<close> and \<^verbatim>\<open>.index[0]\<close> of a value count.\<close>

definition index_tolist :: "(val \<times> nat) list \<Rightarrow> val list" where
  "index_tolist vc = map fst vc"

definition index0 :: "(val \<times> nat) list \<Rightarrow> error + val" where
  "index0 vc = (case vc of [] \<Rightarrow> Inl IndexError | p # _ \<Rightarrow> Inr (fst p))"

section \<open>ColumnsSelector\<close>

record ColumnsSelector =
  type :: dtype

definition ColumnsSelector_fit :: "ColumnsSelector \<Rightarrow> table \<Rightarrow> ColumnsSelector" where
  "ColumnsSelector_fit self X = self"

definition ColumnsSelector_transform :: "ColumnsSelector \<Rightarrow> table \<Rightarrow> table" where
  "ColumnsSelector_transform self X = select_dtypes (type self) X"

section \<open>CategoricalImputer\<close>

text \<open>
  \<^verbatim>\<open>fit\<close> compares the strategy with the literal by identity
  (\<^verbatim>\<open>self.strategy is 'most_frequent'\<close>). CPython interns identifier-like string
  literals, so the default argument and any literal written in a program are the very
  object the comparison looks for; a string built at run time is a different object with
  the same characters.
\<close>

datatype pystr = Interned string | Fresh string

definition py_is :: "pystr \<Rightarrow> string \<Rightarrow> bool" where
  "py_is s lit = (s = Interned lit)"

text \<open>
  \<open>fill = None\<close> stands for an object on which the attribute \<^verbatim>\<open>fill\<close> has not been
  set: \<^verbatim>\<open>__init__\<close> only stores \<^verbatim>\<open>columns\<close> and \<^verbatim>\<open>strategy\<close>.
\<close>

record CategoricalImputer =
  columns :: "string list option"
  strategy :: pystr
  fill :: "(string \<rightharpoonup> val) option"

definition CategoricalImputer_init :: "string list option \<Rightarrow> pystr \<Rightarrow> CategoricalImputer" where
  "CategoricalImputer_init cols strat = \<lparr>columns = cols, strategy = strat, fill = None\<rparr>"

text \<open>
  The dictionary comprehension of the most-frequent branch, key by key:
  \<^verbatim>\<open>X[column]\<close> raises KeyError for a label \<open>X\<close> lacks, and \<^verbatim>\<open>.index[0]\<close>
  raises IndexError when the column has no value at all.
\<close>

fun fill_most_frequent ::
    "(cell list \<Rightarrow> val \<Rightarrow> nat) \<Rightarrow> table \<Rightarrow> string list \<Rightarrow> (string \<rightharpoonup> val) \<Rightarrow>
     error + (string \<rightharpoonup> val)" where
  "fill_most_frequent tie X [] m = Inr m"
| "fill_most_frequent tie X (c # cs) m =
     (case getitem X c of
        Inl e \<Rightarrow> Inl e
      | Inr col \<Rightarrow>
          (case index0 (value_counts tie (cells col)) of
             Inl e \<Rightarrow> Inl e
           | Inr v \<Rightarrow> fill_most_frequent tie X cs (m(c \<mapsto> v))))"

fun fill_zero :: "string list \<Rightarrow> (string \<rightharpoonup> val) \<Rightarrow> (string \<rightharpoonup> val)" where
  "fill_zero [] m = m"
| "fill_zero (c # cs) m = fill_zero cs (m(c \<mapsto> StrV ''0''))"

text \<open>
  \<^verbatim>\<open>fit\<close>: the error it raises, or the object as it is when the call returns.
\<close>

definition CategoricalImputer_fit ::
    "(cell list \<Rightarrow> val \<Rightarrow> nat) \<Rightarrow> CategoricalImputer \<Rightarrow> table \<Rightarrow> error + CategoricalImputer" where
  "CategoricalImputer_fit tie self X =
     (let cols = (case columns self of None \<Rightarrow> columns_of X | Some cs \<Rightarrow> cs) in
      if py_is (strategy self) ''most_frequent'' then
        (case fill_most_frequent tie X cols Map.empty of
           Inl e \<Rightarrow> Inl e
         | Inr m \<Rightarrow> Inr (self\<lparr>columns := Some cols, fill := Some m\<rparr>))
      else Inr (self\<lparr>columns := Some cols, fill := Some (fill_zero cols Map.empty)\<rparr>))"

text \<open>
  The object after the call, also when the call raised: \<^verbatim>\<open>self.columns\<close> is assigned
  before the dictionary is built, so a call that raises leaves the column list captured
  and the fill map as it was.
\<close>

definition CategoricalImputer_after_fit ::
    "(cell list \<Rightarrow> val \<Rightarrow> nat) \<Rightarrow> CategoricalImputer \<Rightarrow> table \<Rightarrow> CategoricalImputer" where
  "CategoricalImputer_after_fit tie self X =
     (case CategoricalImputer_fit tie self X of
        Inl e \<Rightarrow> self\<lparr>columns := Some (case columns self of None \<Rightarrow> columns_of X | Some cs \<Rightarrow> cs)\<rparr>
      | Inr s \<Rightarrow> s)"

text \<open>
  The loop of \<^verbatim>\<open>transform\<close>. In
  \<^verbatim>\<open>X_copy[column].fillna(self.fill[column])\<close> Python first reads the column (KeyError
  when the frame lacks it), then the attribute \<^verbatim>\<open>fill\<close> (AttributeError when it was
  never set), then its entry (KeyError).
\<close>

fun impute_loop :: "(string \<rightharpoonup> val) option \<Rightarrow> table \<Rightarrow> string list \<Rightarrow> error + table" where
  "impute_loop f X [] = Inr X"
| "impute_loop f X (c # cs) =
     (case getitem X c of
        Inl e \<Rightarrow> Inl e
      | Inr col \<Rightarrow>
          (case f of
             None \<Rightarrow> Inl AttributeError
           | Some m \<Rightarrow>
               (case m c of
                  None \<Rightarrow> Inl KeyError
                | Some v \<Rightarrow> impute_loop f (setitem X c (fillna v col)) cs)))"

text \<open>Iterating \<^verbatim>\<open>self.columns\<close> while it is still \<^verbatim>\<open>None\<close> raises TypeError.\<close>

definition CategoricalImputer_transform :: "CategoricalImputer \<Rightarrow> table \<Rightarrow> error + table" where
  "CategoricalImputer_transform self X =
     (case columns self of
        None \<Rightarrow> Inl TypeError
      | Some cs \<Rightarrow> impute_loop (fill self) X cs)"

section \<open>CategoricalEncoder\<close>

record CategoricalEncoder =
  categories :: "string \<rightharpoonup> val list"
  dropFirst :: bool

definition CategoricalEncoder_init :: "bool \<Rightarrow> CategoricalEncoder" where
  "CategoricalEncoder_init d = \<lparr>categories = Map.empty, dropFirst = d\<rparr>"

text \<open>The loop of \<^verbatim>\<open>fit\<close> over the object-typed columns: one dictionary store each.\<close>

fun fit_loop ::
    "(cell list \<Rightarrow> val \<Rightarrow> nat) \<Rightarrow> table \<Rightarrow> (string \<rightharpoonup> val list) \<Rightarrow> (string \<rightharpoonup> val list)" where
  "fit_loop tie [] m = m"
| "fit_loop tie (c # cs) m =
     fit_loop tie cs (m(cname c \<mapsto> index_tolist (value_counts tie (cells c))))"

definition CategoricalEncoder_fit ::
    "(cell list \<Rightarrow> val \<Rightarrow> nat) \<Rightarrow> CategoricalEncoder \<Rightarrow> table \<Rightarrow> CategoricalEncoder" where
  "CategoricalEncoder_fit tie self X =
     self\<lparr>categories := fit_loop tie (select_dtypes Object X) (categories self)\<rparr>"

text \<open>
  A column of dtype category: its name, its levels (the categories, in order) and its
  cells. \<^verbatim>\<open>astype(CategoricalDtype(levels))\<close> turns every value that is not a level
  into a missing entry; pandas refuses levels that are not pairwise distinct with
  ValueError.
\<close>

datatype cat_column = CatColumn (cat_name: string) (cat_levels: "val list") (cat_cells: "cell list")

definition coerce :: "val list \<Rightarrow> column \<Rightarrow> cat_column" where
  "coerce levels c =
     CatColumn (cname c) levels
       (map (\<lambda>x. case x of None \<Rightarrow> None
                  | Some v \<Rightarrow> if v \<in> set levels then Some v else None) (cells c))"

definition astype_category :: "val list \<Rightarrow> column \<Rightarrow> error + cat_column" where
  "astype_category levels c =
     (if \<not> distinct levels then Inl ValueError else Inr (coerce levels c))"

text \<open>The loop of \<^verbatim>\<open>transform\<close>: \<^verbatim>\<open>self.categories[column]\<close> raises KeyError.\<close>

fun astype_loop :: "(string \<rightharpoonup> val list) \<Rightarrow> table \<Rightarrow> error + cat_column list" where
  "astype_loop m [] = Inr []"
| "astype_loop m (c # cs) =
     (case m (cname c) of
        None \<Rightarrow> Inl KeyError
      | Some levels \<Rightarrow>
          (case astype_category levels c of
             Inl e \<Rightarrow> Inl e
           | Inr k \<Rightarrow>
               (case astype_loop m cs of
                  Inl e \<Rightarrow> Inl e
                | Inr ks \<Rightarrow> Inr (k # ks))))"

text \<open>
  \<^verbatim>\<open>pd.get_dummies\<close> names an indicator \<^verbatim>\<open><column>_<level>\<close>, formatting the level
  with Python's \<^verbatim>\<open>str\<close>. The text of a string is the string; the text of a number
  depends on whether the object is an int or a float and is left unspecified.
\<close>

fun py_str :: "val \<Rightarrow> string" where
  "py_str (StrV s) = s"

text \<open>
  The indicator columns of one categorical column: one per level, in level order,
  without the first level when \<^verbatim>\<open>drop_first\<close> is set; a row holds 1 in the column of
  its own level and 0 elsewhere, so a missing entry gives a row of zeros.
\<close>

definition indicator :: "string \<Rightarrow> cell list \<Rightarrow> val \<Rightarrow> column" where
  "indicator n xs l =
     Column (n @ ''_'' @ py_str l) UInt8 (map (\<lambda>x. Some (NumV (if x = Some l then 1 else 0))) xs)"

definition get_dummies_1d :: "bool \<Rightarrow> cat_column \<Rightarrow> table" where
  "get_dummies_1d drop_first k =
     map (indicator (cat_name k) (cat_cells k))
       (drop (if drop_first then 1 else 0) (cat_levels k))"

text \<open>
  \<^verbatim>\<open>pd.get_dummies(data, drop_first=...)\<close> on a frame whose columns are all
  categorical: the indicator blocks side by side, in column order. For a frame without
  any column pandas has no block to put side by side and hands an empty list to
  \<^verbatim>\<open>pandas.concat\<close>; whether that call raises (\<open>Some e\<close>) or yields a frame without
  columns (\<open>None\<close>) is the parameter \<open>concat_nil\<close> of the model, so that nothing proved
  below rests on it.
\<close>

definition get_dummies :: "error option \<Rightarrow> bool \<Rightarrow> cat_column list \<Rightarrow> error + table" where
  "get_dummies concat_nil drop_first data =
     (if data = [] then (case concat_nil of None \<Rightarrow> Inr [] | Some e \<Rightarrow> Inl e)
      else Inr (concat (map (get_dummies_1d drop_first) data)))"

definition CategoricalEncoder_transform ::
    "error option \<Rightarrow> CategoricalEncoder \<Rightarrow> table \<Rightarrow> error + table" where
  "CategoricalEncoder_transform concat_nil self X =
     (case astype_loop (categories self) (select_dtypes Object X) of
        Inl e \<Rightarrow> Inl e
      | Inr data \<Rightarrow> get_dummies concat_nil (dropFirst self) data)"

section \<open>The transformers of \<^verbatim>\<open>get_pipeline\<close>\<close>

definition num_selector :: ColumnsSelector where
  "num_selector = \<lparr>type = Int64\<rparr>"

definition cat_selector :: ColumnsSelector where
  "cat_selector = \<lparr>type = Object\<rparr>"

definition missing_cols :: "string list" where
  "missing_cols = [''workclass'', ''occupation'', ''native-country'']"

definition cat_imputer :: CategoricalImputer where
  "cat_imputer = CategoricalImputer_init (Some missing_cols) (Interned ''most_frequent'')"

definition encoder :: CategoricalEncoder where
  "encoder = CategoricalEncoder_init True"

section \<open>The grid search of the script\<close>

text \<open>
  \<^verbatim>\<open>GridSearchCV.__init__\<close> stores its arguments; the attributes \<^verbatim>\<open>best_params_\<close>
  and \<^verbatim>\<open>best_score_\<close> exist only once \<^verbatim>\<open>fit\<close> has set them, and reading an
  attribute that was never set raises AttributeError. The fields \<open>best_params\<close> and
  \<open>best_score\<close> stand for these two attributes, \<open>None\<close> while unset. The estimator
  argument is the pipeline and is not part of the record.
\<close>

record GridSearchCV =
  param_grid :: "(string \<times> val list) list list"
  scoring :: string
  cv :: nat
  best_params :: "(string \<times> val) list option"
  best_score :: "val option"

definition GridSearchCV_init :: "(string \<times> val list) list list \<Rightarrow> string \<Rightarrow> nat \<Rightarrow> GridSearchCV" where
  "GridSearchCV_init grid sc k =
     \<lparr>param_grid = grid, scoring = sc, cv = k, best_params = None, best_score = None\<rparr>"

definition read_best_params :: "GridSearchCV \<Rightarrow> error + (string \<times> val) list" where
  "read_best_params gs = (case best_params gs of None \<Rightarrow> Inl AttributeError | Some p \<Rightarrow> Inr p)"

definition read_best_score :: "GridSearchCV \<Rightarrow> error + val" where
  "read_best_score gs = (case best_score gs of None \<Rightarrow> Inl AttributeError | Some s \<Rightarrow> Inr s)"

text \<open>
  Lines 171 to 183 of the script. The numbers are the doubles Python reads the literals
  as: \<open>1.0\<close>, \<open>0.5\<close> and the double nearest to \<open>0.1\<close>, which is
  \<open>3602879701896397 / 2 ^ 55\<close>.
\<close>

definition param_range_fl :: "val list" where
  "param_range_fl = [NumV 1, NumV (1 / 2), NumV (3602879701896397 / 36028797018963968)]"

definition grid_params_lr :: "(string \<times> val list) list list" where
  "grid_params_lr =
     [[(''model_lr__penalty'', [StrV ''l1'', StrV ''l2'']), (''model_lr__C'', param_range_fl)]]"

definition gs_lr :: GridSearchCV where
  "gs_lr = GridSearchCV_init grid_params_lr ''roc_auc'' 10"

definition main_grid_search :: "error + ((string \<times> val) list \<times> val)" where
  "main_grid_search =
     (case read_best_params gs_lr of
        Inl e \<Rightarrow> Inl e
      | Inr p \<Rightarrow> (case read_best_score gs_lr of Inl e \<Rightarrow> Inl e | Inr s \<Rightarrow> Inr (p, s)))"

section \<open>Example frames\<close>

definition ex_mixed :: table where
  "ex_mixed =
     [Column ''age'' Int64 [Some (NumV 39), Some (NumV 50)],
      Column ''hours'' Float64 [Some (NumV (81 / 2)), Some (NumV 13)],
      Column ''sex'' Object [Some (StrV ''Male''), Some (StrV ''Female'')]]"

definition ex_AABC :: table where
  "ex_AABC =
     [Column ''col'' Object [Some (StrV ''A''), Some (StrV ''A''), Some (StrV ''B''), Some (StrV ''C'')]]"

definition ex_AABnull :: table where
  "ex_AABnull =
     [Column ''col'' Object [Some (StrV ''A''), Some (StrV ''A''), Some (StrV ''B''), None]]"

definition ex_two :: table where
  "ex_two =
     [Column ''workclass'' Object [Some (StrV ''Private''), None],
      Column ''sex'' Object [Some (StrV ''Male''), Some (StrV ''Female'')]]"

definition ex_sex :: table where
  "ex_sex = [Column ''sex'' Object [Some (StrV ''Female''), Some (StrV ''Other'')]]"

definition ex_unseen :: table where
  "ex_unseen = [Column ''col'' Object [Some (StrV ''D''), Some (StrV ''B'')]]"

section \<open>Facts about the pandas operations\<close>

subsection \<open>Value counts\<close>

lemma set_uniq: "set (uniq xs) = set xs"
  by (induction xs rule: uniq.induct) auto

lemma distinct_uniq: "distinct (uniq xs)"
  by (induction xs rule: uniq.induct) (auto simp: set_uniq)

lemma set_present: "set (present xs) = {v. Some v \<in> set xs}"
  by (induction xs) (auto simp: present_def split: option.splits)

lemma count_present: "count_list (present xs) v = count_list xs (Some v)"
  by (induction xs) (auto simp: present_def split: option.splits)

lemma distinct_map_insort_key:
  "distinct (map f (insort_key k x xs)) = (f x \<notin> f ` set xs \<and> distinct (map f xs))"
  by (induction xs) (auto simp: set_insort_key)

lemma distinct_map_sort_key: "distinct (map f (sort_key k xs)) = distinct (map f xs)"
  by (induction xs) (auto simp: distinct_map_insort_key)

lemma map_fst_counts: "map fst (map (\<lambda>v. (v, g v)) ys) = ys"
  by (induction ys) auto

lemma distinct_vocab: "distinct (index_tolist (value_counts tie xs))"
  by (simp add: index_tolist_def value_counts_def Let_def distinct_map_sort_key distinct_uniq comp_def)

lemma set_vocab: "set (index_tolist (value_counts tie xs)) = {v. Some v \<in> set xs}"
proof -
  have "set (index_tolist (value_counts tie xs)) = fst ` set (map (\<lambda>v. (v, count_list (present xs) v)) (uniq (present xs)))"
    by (simp add: index_tolist_def value_counts_def Let_def)
  also have "\<dots> = set (uniq (present xs))"
    by (simp add: image_image)
  finally show ?thesis by (simp add: set_uniq set_present)
qed

lemma value_counts_snd:
  "p \<in> set (value_counts tie xs) \<Longrightarrow> snd p = count_list xs (Some (fst p))"
  by (auto simp: value_counts_def Let_def count_present split: if_splits)

lemma sorted_value_counts:
  "sorted_wrt (\<lambda>p q. snd q \<le> snd p) (value_counts tie xs)"
proof -
  have "sorted (map (\<lambda>p. - int (snd p)) (value_counts tie xs))"
    unfolding value_counts_def Let_def by (rule sorted_sort_key)
  then show ?thesis
    by (simp add: sorted_map)
qed

lemma sorted_vocab:
  "sorted_wrt (\<lambda>a b. count_list xs (Some b) \<le> count_list xs (Some a)) (index_tolist (value_counts tie xs))"
proof -
  have "sorted_wrt (\<lambda>p q. count_list xs (Some (fst q)) \<le> count_list xs (Some (fst p))) (value_counts tie xs)"
    using sorted_value_counts [where xs = xs and tie = tie]
    by (rule sorted_wrt_mono_rel [rotated]) (simp add: value_counts_snd)
  then show ?thesis
    by (simp add: index_tolist_def sorted_wrt_map)
qed

lemma index0_value_counts:
  "index0 (value_counts tie xs) =
     (case index_tolist (value_counts tie xs) of [] \<Rightarrow> Inl IndexError | v # _ \<Rightarrow> Inr v)"
  by (simp add: index0_def index_tolist_def split: list.splits)

lemma index0_most_frequent:
  assumes "index0 (value_counts tie xs) = Inr v"
  shows "Some v \<in> set xs \<and> (\<forall>w. count_list xs (Some w) \<le> count_list xs (Some v))"
proof -
  from assms obtain vs where vs: "index_tolist (value_counts tie xs) = v # vs"
    by (auto simp: index0_value_counts split: list.splits)
  have "v \<in> set (index_tolist (value_counts tie xs))"
    by (simp add: vs)
  then have mem: "Some v \<in> set xs"
    by (simp add: set_vocab)
  have le: "count_list xs (Some w) \<le> count_list xs (Some v)" for w
  proof (cases "Some w \<in> set xs")
    case True
    then have "w \<in> set (v # vs)"
      using set_vocab [where xs = xs and tie = tie] by (simp add: vs)
    then show ?thesis
      using sorted_vocab [where xs = xs and tie = tie] by (auto simp: vs)
  next
    case False
    then show ?thesis by (simp add: count_list_0_iff)
  qed
  from mem le show ?thesis by blast
qed

lemma index0_IndexError:
  "(index0 (value_counts tie xs) = Inl e) = (e = IndexError \<and> (\<forall>v. Some v \<notin> set xs))"
proof -
  have "(index_tolist (value_counts tie xs) = []) = (\<forall>v. Some v \<notin> set xs)"
    using set_vocab [where xs = xs and tie = tie] by (metis (mono_tags, lifting) Collect_empty_eq set_empty)
  then show ?thesis
    by (auto simp: index0_value_counts split: list.splits)
qed

subsection \<open>The loop of the encoder's fit\<close>

lemma fit_loop_other: "n \<notin> cname ` set cs \<Longrightarrow> fit_loop tie cs m n = m n"
  by (induction cs arbitrary: m) auto

lemma fit_loop_member:
  "distinct (map cname cs) \<Longrightarrow> c \<in> set cs \<Longrightarrow>
   fit_loop tie cs m (cname c) = Some (index_tolist (value_counts tie (cells c)))"
  by (induction cs arbitrary: m) (auto simp: fit_loop_other)

lemma fit_loop_distinct:
  "(\<forall>n ls. m n = Some ls \<longrightarrow> distinct ls) \<Longrightarrow> fit_loop tie cs m n = Some ls \<Longrightarrow> distinct ls"
proof (induction cs arbitrary: m)
  case Nil
  then show ?case by simp
next
  case (Cons c cs)
  let ?m = "m(cname c \<mapsto> index_tolist (value_counts tie (cells c)))"
  have "\<forall>n ls. ?m n = Some ls \<longrightarrow> distinct ls"
    using Cons.prems(1) by (auto simp: distinct_vocab)
  moreover have "fit_loop tie cs ?m n = Some ls"
    using Cons.prems(2) by simp
  ultimately show ?case by (rule Cons.IH)
qed

lemma fit_loop_indep:
  "n \<in> cname ` set cs \<Longrightarrow> fit_loop tie cs m n = fit_loop tie cs m' n"
proof (induction cs arbitrary: m m')
  case Nil
  then show ?case by simp
next
  case (Cons c cs)
  show ?case
  proof (cases "n \<in> cname ` set cs")
    case True
    then show ?thesis using Cons.IH by simp
  next
    case False
    with Cons.prems have "n = cname c" by auto
    with False show ?thesis by (simp add: fit_loop_other)
  qed
qed

lemma fit_loop_idem: "fit_loop tie cs (fit_loop tie cs m) = fit_loop tie cs m"
proof
  fix n
  show "fit_loop tie cs (fit_loop tie cs m) n = fit_loop tie cs m n"
  proof (cases "n \<in> cname ` set cs")
    case True
    then show ?thesis by (rule fit_loop_indep)
  next
    case False
    then show ?thesis by (simp add: fit_loop_other)
  qed
qed

subsection \<open>The loop of the encoder's transform\<close>

lemma astype_loop_Inr:
  "(astype_loop m cs = Inr ks) =
   ((\<forall>c\<in>set cs. \<exists>ls. m (cname c) = Some ls \<and> distinct ls) \<and>
    ks = map (\<lambda>c. coerce (the (m (cname c))) c) cs)"
proof (induction cs arbitrary: ks)
  case Nil
  then show ?case by auto
next
  case (Cons c cs)
  show ?case
  proof (cases "m (cname c)")
    case None
    then show ?thesis by simp
  next
    case (Some ls)
    show ?thesis
    proof (cases "distinct ls")
      case False
      with Some show ?thesis by (simp add: astype_category_def)
    next
      case True
      show ?thesis
      proof (cases "astype_loop m cs")
        case (Inl e)
        with Cons.IH have "\<not> (\<forall>c\<in>set cs. \<exists>ls. m (cname c) = Some ls \<and> distinct ls)"
          by auto
        with Some True Inl show ?thesis by (simp add: astype_category_def)
      next
        case (Inr ks')
        with Cons.IH [of ks'] Some True show ?thesis
          by (auto simp: astype_category_def coerce_def)
      qed
    qed
  qed
qed

lemma astype_loop_KeyError:
  "(\<forall>n ls. m n = Some ls \<longrightarrow> distinct ls) \<Longrightarrow> c \<in> set cs \<Longrightarrow> m (cname c) = None \<Longrightarrow>
   astype_loop m cs = Inl KeyError"
proof (induction cs)
  case Nil
  then show ?case by simp
next
  case (Cons a cs)
  show ?case
  proof (cases "m (cname a)")
    case None
    then show ?thesis by simp
  next
    case (Some ls)
    with Cons.prems(3) have "a \<noteq> c" by auto
    with Cons.prems have "astype_loop m cs = Inl KeyError"
      using Cons.IH by simp
    moreover have "distinct ls" using Some Cons.prems(1) by blast
    ultimately show ?thesis using Some by (simp add: astype_category_def)
  qed
qed

lemma astype_loop_schema:
  "map cname cs = map cname cs' \<Longrightarrow>
   map_sum id (map (\<lambda>k. (cat_name k, cat_levels k))) (astype_loop m cs) =
   map_sum id (map (\<lambda>k. (cat_name k, cat_levels k))) (astype_loop m cs')"
proof (induction cs arbitrary: cs')
  case Nil
  then show ?case by simp
next
  case (Cons c cs)
  then obtain c' cs'' where cs': "cs' = c' # cs''" "cname c = cname c'" "map cname cs = map cname cs''"
    by (cases cs') auto
  from Cons.IH [OF cs'(3)] show ?case
    by (cases "astype_loop m cs"; cases "astype_loop m cs''")
      (auto simp: cs' astype_category_def coerce_def split: option.splits)
qed

lemma indicator_coerce:
  "l \<in> set ls \<Longrightarrow> indicator n (cat_cells (coerce ls c)) l = indicator n (cells c) l"
  by (auto simp: indicator_def coerce_def split: option.splits)

lemma cat_name_coerce: "cat_name (coerce ls c) = cname c"
  by (simp add: coerce_def)

lemma cat_levels_coerce: "cat_levels (coerce ls c) = ls"
  by (simp add: coerce_def)

lemma get_dummies_1d_coerce:
  "get_dummies_1d d (coerce ls c) =
   map (indicator (cname c) (cells c)) (drop (if d then 1 else 0) ls)"
  unfolding get_dummies_1d_def cat_name_coerce cat_levels_coerce
proof (rule map_cong [OF refl])
  fix l
  assume "l \<in> set (drop (if d then 1 else 0) ls)"
  then have "l \<in> set ls" by (rule in_set_dropD)
  then show "indicator (cname c) (cat_cells (coerce ls c)) l = indicator (cname c) (cells c) l"
    by (rule indicator_coerce)
qed

subsection \<open>The loops of the imputer\<close>

lemma getitem_Inr: "getitem X n = Inr col \<Longrightarrow> col \<in> set X \<and> cname col = n"
  by (induction X) (auto split: if_splits)

lemma getitem_Inl: "(getitem X n = Inl e) = (e = KeyError \<and> n \<notin> cname ` set X)"
  by (induction X) auto

lemma getitem_present: "n \<in> cname ` set X \<Longrightarrow> \<exists>col. getitem X n = Inr col"
  by (induction X) auto

lemma cname_fillna: "cname (fillna v c) = cname c"
  by (simp add: fillna_def)

lemma fillna_idem: "fillna v (fillna v c) = fillna v c"
  by (simp add: fillna_def comp_def split: option.splits cong: map_cong)

lemma names_setitem: "cname s = n \<Longrightarrow> map cname (setitem X n s) = map cname X"
  by (induction X) auto

lemma setitem_map:
  "distinct (map cname X) \<Longrightarrow> getitem X n = Inr col \<Longrightarrow>
   setitem X n (f col) = map (\<lambda>k. if cname k = n then f k else k) X"
proof (induction X)
  case Nil
  then show ?case by simp
next
  case (Cons a X)
  show ?case
  proof (cases "cname a = n")
    case True
    with Cons.prems have "col = a" and "\<forall>k\<in>set X. cname k \<noteq> n"
      by (auto simp: image_iff)
    then have "map (\<lambda>k. if cname k = n then f k else k) X = X"
      by (simp add: map_idI)
    with True \<open>col = a\<close> show ?thesis by simp
  next
    case False
    with Cons show ?thesis by simp
  qed
qed

lemma impute_loop_closed:
  "distinct (map cname X) \<Longrightarrow> set cs \<subseteq> cname ` set X \<Longrightarrow> set cs \<subseteq> dom m \<Longrightarrow>
   impute_loop (Some m) X cs =
     Inr (map (\<lambda>k. if cname k \<in> set cs then fillna (the (m (cname k))) k else k) X)"
proof (induction cs arbitrary: X)
  case Nil
  then show ?case by (simp add: map_idI)
next
  case (Cons c cs)
  from Cons.prems(2) obtain col where col: "getitem X c = Inr col"
    using getitem_present [of c X] by auto
  from Cons.prems(3) obtain v where v: "m c = Some v" by auto
  let ?X = "setitem X c (fillna v col)"
  have X1: "?X = map (\<lambda>k. if cname k = c then fillna v k else k) X"
    using setitem_map [OF Cons.prems(1) col, of "fillna v"] .
  have names: "map cname ?X = map cname X"
    using getitem_Inr [OF col] by (simp add: names_setitem cname_fillna)
  have d: "distinct (map cname ?X)" using Cons.prems(1) names by simp
  have s: "set cs \<subseteq> cname ` set ?X"
  proof -
    have "cname ` set ?X = set (map cname ?X)" by simp
    also have "\<dots> = cname ` set X" using names by simp
    finally show ?thesis using Cons.prems(2) by simp
  qed
  have m: "set cs \<subseteq> dom m" using Cons.prems(3) by simp
  have "impute_loop (Some m) X (c # cs) = impute_loop (Some m) ?X cs"
    using col v by simp
  also have "\<dots> = Inr (map (\<lambda>k. if cname k \<in> set cs then fillna (the (m (cname k))) k else k) ?X)"
    by (rule Cons.IH [OF d s m])
  also have "map (\<lambda>k. if cname k \<in> set cs then fillna (the (m (cname k))) k else k) ?X =
     map (\<lambda>k. if cname k \<in> set (c # cs) then fillna (the (m (cname k))) k else k) X"
    unfolding X1 by (auto simp: cname_fillna v fillna_idem)
  finally show ?case .
qed

lemma impute_loop_KeyError:
  "set cs \<subseteq> dom m \<Longrightarrow> c \<in> set cs \<Longrightarrow> c \<notin> cname ` set X \<Longrightarrow>
   impute_loop (Some m) X cs = Inl KeyError"
proof (induction cs arbitrary: X)
  case Nil
  then show ?case by simp
next
  case (Cons a cs)
  show ?case
  proof (cases "getitem X a")
    case (Inl e)
    then have "e = KeyError" by (simp add: getitem_Inl)
    with Inl show ?thesis by simp
  next
    case (Inr col)
    from Cons.prems(1) obtain v where v: "m a = Some v" by auto
    let ?X = "setitem X a (fillna v col)"
    have "map cname ?X = map cname X"
      using getitem_Inr [OF Inr] by (simp add: names_setitem cname_fillna)
    then have "set (map cname ?X) = set (map cname X)" by simp
    then have notin: "c \<notin> cname ` set ?X" using Cons.prems(3) by simp
    from getitem_Inr [OF Inr] Cons.prems(3) have "a \<noteq> c" by auto
    with Cons.prems(2) have "c \<in> set cs" by simp
    moreover have "set cs \<subseteq> dom m" using Cons.prems(1) by simp
    ultimately have "impute_loop (Some m) ?X cs = Inl KeyError"
      using notin by (intro Cons.IH)
    with Inr v show ?thesis by simp
  qed
qed

lemma fill_most_frequent_Inr:
  "fill_most_frequent tie X cs m0 = Inr m \<Longrightarrow>
   (\<forall>n. n \<notin> set cs \<longrightarrow> m n = m0 n) \<and>
   (\<forall>c\<in>set cs. \<exists>col v. getitem X c = Inr col \<and>
       index0 (value_counts tie (cells col)) = Inr v \<and> m c = Some v)"
proof (induction cs arbitrary: m0)
  case Nil
  then show ?case by simp
next
  case (Cons c cs)
  from Cons.prems obtain col v where col: "getitem X c = Inr col"
    and v: "index0 (value_counts tie (cells col)) = Inr v"
    and rest: "fill_most_frequent tie X cs (m0(c \<mapsto> v)) = Inr m"
    by (auto split: sum.splits)
  from Cons.IH [OF rest] have other: "\<forall>n. n \<notin> set cs \<longrightarrow> m n = (m0(c \<mapsto> v)) n"
    and each: "\<forall>c\<in>set cs. \<exists>col v. getitem X c = Inr col \<and>
       index0 (value_counts tie (cells col)) = Inr v \<and> m c = Some v"
    by blast+
  have head: "\<exists>col v. getitem X c = Inr col \<and>
       index0 (value_counts tie (cells col)) = Inr v \<and> m c = Some v"
  proof (cases "c \<in> set cs")
    case True
    with each show ?thesis by blast
  next
    case False
    with other have "m c = Some v" by simp
    with col v show ?thesis by blast
  qed
  from other have "\<forall>n. n \<notin> set (c # cs) \<longrightarrow> m n = m0 n" by simp
  with head each show ?case by simp
qed

lemma fill_most_frequent_total:
  "(\<forall>c\<in>set cs. \<exists>col v. getitem X c = Inr col \<and> Some v \<in> set (cells col)) \<Longrightarrow>
   \<exists>m. fill_most_frequent tie X cs m0 = Inr m"
proof (induction cs arbitrary: m0)
  case Nil
  then show ?case by simp
next
  case (Cons c cs)
  from Cons.prems obtain col v where col: "getitem X c = Inr col" and v: "Some v \<in> set (cells col)"
    by auto
  from v obtain w where w: "index0 (value_counts tie (cells col)) = Inr w"
    using index0_IndexError [where xs = "cells col" and tie = tie] by (cases "index0 (value_counts tie (cells col))") auto
  from Cons.prems have "\<forall>c\<in>set cs. \<exists>col v. getitem X c = Inr col \<and> Some v \<in> set (cells col)"
    by simp
  from Cons.IH [OF this, of "m0(c \<mapsto> w)"]
  obtain m where "fill_most_frequent tie X cs (m0(c \<mapsto> w)) = Inr m" ..
  with col w show ?case by simp
qed

lemma fill_zero_apply: "fill_zero cs m0 n = (if n \<in> set cs then Some (StrV ''0'') else m0 n)"
  by (induction cs arbitrary: m0) auto

lemma imputer_fit_fill_dom:
  "CategoricalImputer_fit tie imp X = Inr imp' \<Longrightarrow>
   \<exists>cs f. columns imp' = Some cs \<and> fill imp' = Some f \<and> set cs \<subseteq> dom f \<and>
     cs = (case columns imp of None \<Rightarrow> columns_of X | Some cs \<Rightarrow> cs)"
proof (cases "py_is (strategy imp) ''most_frequent''")
  case True
  assume fit: "CategoricalImputer_fit tie imp X = Inr imp'"
  let ?cs = "case columns imp of None \<Rightarrow> columns_of X | Some cs \<Rightarrow> cs"
  from fit True obtain m where m: "fill_most_frequent tie X ?cs Map.empty = Inr m"
    and imp': "imp' = imp\<lparr>columns := Some ?cs, fill := Some m\<rparr>"
    by (auto simp: CategoricalImputer_fit_def Let_def split: sum.splits)
  from fill_most_frequent_Inr [OF m] have "set ?cs \<subseteq> dom m" by auto
  with imp' show ?thesis by simp
next
  case False
  assume fit: "CategoricalImputer_fit tie imp X = Inr imp'"
  let ?cs = "case columns imp of None \<Rightarrow> columns_of X | Some cs \<Rightarrow> cs"
  from fit False have imp': "imp' = imp\<lparr>columns := Some ?cs, fill := Some (fill_zero ?cs Map.empty)\<rparr>"
    by (auto simp: CategoricalImputer_fit_def Let_def)
  have "set ?cs \<subseteq> dom (fill_zero ?cs Map.empty)"
    by (auto simp: fill_zero_apply)
  with imp' show ?thesis by simp
qed

lemma imputer_fit_idem:
  "CategoricalImputer_fit tie imp X = Inr imp' \<Longrightarrow> CategoricalImputer_fit tie imp' X = Inr imp'"
  by (auto simp: CategoricalImputer_fit_def Let_def split: sum.splits if_splits option.splits)

lemma imputer_fit_ignores_fill:
  "CategoricalImputer_fit tie (imp\<lparr>fill := g\<rparr>) X = CategoricalImputer_fit tie imp X"
  by (auto simp: CategoricalImputer_fit_def Let_def split: sum.splits)

lemma imputer_fit_keeps_columns:
  "columns imp = Some cs \<Longrightarrow> CategoricalImputer_fit tie imp X = Inr imp' \<Longrightarrow> columns imp' = Some cs"
  by (auto simp: CategoricalImputer_fit_def Let_def split: sum.splits if_splits)

section \<open>The grid search of the script is read before it is fitted\<close>

text \<open>
  Claim C1. The script builds the grid search with the grid penalty in \<open>{l1, l2}\<close>
  times C in \<open>{1.0, 0.5, 0.1}\<close>, scoring \<open>roc_auc\<close> and ten folds, and then reads
  \<^verbatim>\<open>best_params_\<close> and \<^verbatim>\<open>best_score_\<close> without any call of \<^verbatim>\<open>fit\<close> in
  between: neither attribute exists, and the first read raises AttributeError, so the
  search never runs and no best combination is exposed.
\<close>

theorem grid_search_read_before_fit:
  "cv gs_lr = 10 \<and> scoring gs_lr = ''roc_auc'' \<and>
   param_grid gs_lr =
     [[(''model_lr__penalty'', [StrV ''l1'', StrV ''l2'']),
       (''model_lr__C'', [NumV 1, NumV (1 / 2), NumV (3602879701896397 / 36028797018963968)])]] \<and>
   best_params gs_lr = None \<and> best_score gs_lr = None \<and>
   main_grid_search = Inl AttributeError"
  by (simp add: main_grid_search_def read_best_params_def gs_lr_def GridSearchCV_init_def
      grid_params_lr_def param_range_fl_def)

section \<open>ColumnsSelector selects by dtype tag\<close>

text \<open>
  Claim C3 as stated asks the numeric selector for every numeric column. On a frame with
  an int64 and a float64 column the selector of the pipeline, built with the tag
  \<open>int64\<close>, keeps the first and leaves the float column out.
\<close>

theorem num_selector_drops_float_counterexample:
  "ColumnsSelector_transform num_selector ex_mixed =
     [Column ''age'' Int64 [Some (NumV 39), Some (NumV 50)]] \<and>
   filter (\<lambda>c. is_numeric (ctype c)) ex_mixed =
     [Column ''age'' Int64 [Some (NumV 39), Some (NumV 50)],
      Column ''hours'' Float64 [Some (NumV (81 / 2)), Some (NumV 13)]] \<and>
   ColumnsSelector_transform num_selector ex_mixed \<noteq> filter (\<lambda>c. is_numeric (ctype c)) ex_mixed"
  by (simp add: ColumnsSelector_transform_def num_selector_def select_dtypes_def ex_mixed_def
      is_numeric_def)

text \<open>
  Claim C3, amended. For every frame \<open>X\<close> the selector returns exactly the columns of
  \<open>X\<close> whose dtype is the configured tag, whole and with their cells unchanged, in the
  order they have in \<open>X\<close>; it returns the frame without columns when no column has that
  dtype, it never fails, \<^verbatim>\<open>fit\<close> changes nothing, and the tag of the pipeline's
  numeric selector is \<open>int64\<close>.
\<close>

theorem ColumnsSelector_selects_by_dtype:
  "ColumnsSelector_transform self X = filter (\<lambda>c. ctype c = type self) X \<and>
   set (ColumnsSelector_transform self X) = {c \<in> set X. ctype c = type self} \<and>
   subseq (ColumnsSelector_transform self X) X \<and>
   ((\<forall>c\<in>set X. ctype c \<noteq> type self) \<longrightarrow> ColumnsSelector_transform self X = []) \<and>
   ColumnsSelector_transform (ColumnsSelector_fit self Y) X = ColumnsSelector_transform self X \<and>
   type num_selector = Int64"
  by (auto simp: ColumnsSelector_transform_def ColumnsSelector_fit_def select_dtypes_def
      num_selector_def filter_empty_conv)

theorem ColumnsSelector_selects_by_dtype_witness:
  "ColumnsSelector_transform num_selector ex_sex = [] \<and>
   ColumnsSelector_transform num_selector ex_mixed =
     [Column ''age'' Int64 [Some (NumV 39), Some (NumV 50)]]"
  using ColumnsSelector_selects_by_dtype [of num_selector ex_sex]
    ColumnsSelector_selects_by_dtype [of num_selector ex_mixed]
  by (simp add: ex_sex_def ex_mixed_def num_selector_def)

section \<open>Transform before fit\<close>

text \<open>
  Claim C2 as stated asks every transform of an unfitted transformer to fail. An
  imputer built with an empty column list and never fitted returns the frame as it is.
\<close>

theorem unfitted_imputer_returns_counterexample:
  "CategoricalImputer_transform (CategoricalImputer_init (Some []) (Interned ''most_frequent'')) ex_two
     = Inr ex_two"
  by (simp add: CategoricalImputer_transform_def CategoricalImputer_init_def)

lemma encoder_no_object_columns:
  "select_dtypes Object X = [] \<Longrightarrow>
   CategoricalEncoder_transform cn enc X = (case cn of None \<Rightarrow> Inr [] | Some e \<Rightarrow> Inl e)"
  by (simp add: CategoricalEncoder_transform_def get_dummies_def)

text \<open>
  Claim C2, amended. \<^verbatim>\<open>transform\<close> of a CategoricalImputer whose column list is unset
  raises TypeError; with a non-empty list and no fill map it raises KeyError when the
  frame lacks the first listed column and AttributeError otherwise; with an empty list
  it returns the frame. \<^verbatim>\<open>transform\<close> of a freshly built CategoricalEncoder raises
  KeyError whenever the frame has an object-typed column; on a frame without
  object-typed columns every encoder, fitted or not, does what the fresh one does.
  None of these is a dedicated not-fitted error.
\<close>

theorem unfitted_transform_outcomes:
  "(columns imp = None \<longrightarrow> CategoricalImputer_transform imp X = Inl TypeError) \<and>
   (columns imp = Some (c # cs) \<and> fill imp = None \<longrightarrow>
      CategoricalImputer_transform imp X =
        Inl (if c \<in> set (columns_of X) then AttributeError else KeyError)) \<and>
   (columns imp = Some [] \<longrightarrow> CategoricalImputer_transform imp X = Inr X) \<and>
   (select_dtypes Object X \<noteq> [] \<longrightarrow>
      CategoricalEncoder_transform cn (CategoricalEncoder_init d) X = Inl KeyError) \<and>
   (select_dtypes Object X = [] \<longrightarrow>
      CategoricalEncoder_transform cn enc X =
        CategoricalEncoder_transform cn (CategoricalEncoder_init d) X)"
proof -
  have a: "columns imp = None \<Longrightarrow> CategoricalImputer_transform imp X = Inl TypeError"
    by (simp add: CategoricalImputer_transform_def)
  have b: "CategoricalImputer_transform imp X =
        Inl (if c \<in> set (columns_of X) then AttributeError else KeyError)"
    if "columns imp = Some (c # cs)" "fill imp = None"
  proof (cases "getitem X c")
    case (Inl e)
    then have "e = KeyError" "c \<notin> set (columns_of X)"
      by (simp_all add: getitem_Inl columns_of_def)
    with Inl that show ?thesis by (simp add: CategoricalImputer_transform_def)
  next
    case (Inr col)
    from getitem_Inr [OF this] have "c \<in> set (columns_of X)"
      by (auto simp: columns_of_def)
    with Inr that show ?thesis by (simp add: CategoricalImputer_transform_def)
  qed
  have c: "columns imp = Some [] \<Longrightarrow> CategoricalImputer_transform imp X = Inr X"
    by (simp add: CategoricalImputer_transform_def)
  have d: "CategoricalEncoder_transform cn (CategoricalEncoder_init d) X = Inl KeyError"
    if "select_dtypes Object X \<noteq> []"
  proof -
    from that obtain k ks where "select_dtypes Object X = k # ks"
      by (cases "select_dtypes Object X") auto
    then show ?thesis
      by (simp add: CategoricalEncoder_transform_def CategoricalEncoder_init_def)
  qed
  have e: "CategoricalEncoder_transform cn enc X =
        CategoricalEncoder_transform cn (CategoricalEncoder_init d) X"
    if "select_dtypes Object X = []"
    using that by (simp add: encoder_no_object_columns)
  from a b c d e show ?thesis by blast
qed

theorem unfitted_transform_outcomes_witness:
  "CategoricalImputer_transform (CategoricalImputer_init None (Interned ''most_frequent'')) ex_two
     = Inl TypeError \<and>
   CategoricalImputer_transform cat_imputer ex_two = Inl AttributeError \<and>
   CategoricalImputer_transform cat_imputer ex_sex = Inl KeyError \<and>
   CategoricalImputer_transform (CategoricalImputer_init (Some []) (Fresh ''zero'')) ex_sex
     = Inr ex_sex \<and>
   CategoricalEncoder_transform (Some ValueError) encoder ex_two = Inl KeyError \<and>
   CategoricalEncoder_transform None (CategoricalEncoder_fit first_seen encoder ex_two)
       [Column ''age'' Int64 [Some (NumV 39)]] =
     CategoricalEncoder_transform None encoder [Column ''age'' Int64 [Some (NumV 39)]]"
  using unfitted_transform_outcomes
      [where imp = "CategoricalImputer_init None (Interned ''most_frequent'')" and X = ex_two]
    unfitted_transform_outcomes
      [where imp = cat_imputer and c = "''workclass''"
         and cs = "[''occupation'', ''native-country'']" and X = ex_two
         and cn = "Some ValueError" and d = True]
    unfitted_transform_outcomes
      [where imp = cat_imputer and c = "''workclass''"
         and cs = "[''occupation'', ''native-country'']" and X = ex_sex]
    unfitted_transform_outcomes
      [where imp = "CategoricalImputer_init (Some []) (Fresh ''zero'')" and X = ex_sex]
    unfitted_transform_outcomes
      [where X = "[Column ''age'' Int64 [Some (NumV 39)]]" and cn = None
         and enc = "CategoricalEncoder_fit first_seen encoder ex_two" and d = True]
  by (simp add: CategoricalImputer_init_def cat_imputer_def missing_cols_def ex_two_def
      ex_sex_def columns_of_def select_dtypes_def encoder_def)

section \<open>Fitting again\<close>

lemma encoder_fit_other:
  "n \<notin> set (columns_of (select_dtypes Object X)) \<Longrightarrow>
   categories (CategoricalEncoder_fit tie enc X) n = categories enc n"
  by (simp add: CategoricalEncoder_fit_def columns_of_def fit_loop_other)

lemma encoder_fit_member:
  "wf_table X \<Longrightarrow> c \<in> set (select_dtypes Object X) \<Longrightarrow>
   categories (CategoricalEncoder_fit tie enc X) (cname c) = Some (index_tolist (value_counts tie (cells c)))"
  by (simp add: CategoricalEncoder_fit_def wf_table_def select_dtypes_def fit_loop_member
      distinct_map_filter)

lemma encoder_fit_distinct:
  "(\<forall>n ls. categories enc n = Some ls \<longrightarrow> distinct ls) \<Longrightarrow>
   categories (CategoricalEncoder_fit tie enc X) n = Some ls \<Longrightarrow> distinct ls"
  using fit_loop_distinct [where m = "categories enc" and cs = "select_dtypes Object X" and n = n and ls = ls and tie = tie]
  by (simp add: CategoricalEncoder_fit_def)

lemma encoder_fit_dropFirst: "dropFirst (CategoricalEncoder_fit tie enc X) = dropFirst enc"
  by (simp add: CategoricalEncoder_fit_def)

lemma encoder_fits_other:
  "\<forall>X\<in>set Xs. n \<notin> set (columns_of (select_dtypes Object X)) \<Longrightarrow>
   categories (foldl (CategoricalEncoder_fit tie) enc Xs) n = categories enc n"
  by (induction Xs arbitrary: enc) (simp_all add: encoder_fit_other)

lemma encoder_fits_distinct:
  "(\<forall>n ls. categories enc n = Some ls \<longrightarrow> distinct ls) \<Longrightarrow>
   categories (foldl (CategoricalEncoder_fit tie) enc Xs) n = Some ls \<Longrightarrow> distinct ls"
proof (induction Xs arbitrary: enc)
  case Nil
  then show ?case by simp
next
  case (Cons X Xs)
  have "\<forall>n ls. categories (CategoricalEncoder_fit tie enc X) n = Some ls \<longrightarrow> distinct ls"
    using Cons.prems(1) encoder_fit_distinct by blast
  then show ?case using Cons.IH Cons.prems(2) by simp
qed

text \<open>
  Claim C4 as stated asks a second fit to leave nothing of the first. The encoder fitted
  on a frame with the columns \<open>workclass\<close> and \<open>sex\<close> and then on a frame that has
  only the column \<open>col\<close> still holds the vocabulary of \<open>sex\<close>, which a single fit on
  the second frame does not give.
\<close>

theorem refit_keeps_earlier_vocabulary_counterexample:
  "categories (CategoricalEncoder_fit first_seen (CategoricalEncoder_fit first_seen encoder ex_two) ex_AABC) ''sex'' =
     Some [StrV ''Male'', StrV ''Female''] \<and>
   categories (CategoricalEncoder_fit first_seen encoder ex_AABC) ''sex'' = None"
  by (simp add: CategoricalEncoder_fit_def encoder_def CategoricalEncoder_init_def ex_two_def
      ex_AABC_def select_dtypes_def value_counts_def Let_def present_def index_tolist_def)

text \<open>
  Claim C4, amended. Fitting twice on the same data gives the state of fitting once, for
  the encoder and for the imputer. A fit of the encoder stores the vocabulary of every
  object-typed column of the new frame and leaves the entry of every other name as it
  was. A fit of the imputer replaces the fill map whatever it held before, and keeps a
  column list that was already set (also one captured at an earlier fit).
\<close>

theorem refit_overwrites_only_present_columns:
  "CategoricalEncoder_fit tie (CategoricalEncoder_fit tie enc X) X = CategoricalEncoder_fit tie enc X \<and>
   (n \<notin> set (columns_of (select_dtypes Object X)) \<longrightarrow>
      categories (CategoricalEncoder_fit tie enc X) n = categories enc n) \<and>
   (wf_table X \<and> c \<in> set (select_dtypes Object X) \<longrightarrow>
      categories (CategoricalEncoder_fit tie enc X) (cname c) =
        Some (index_tolist (value_counts tie (cells c)))) \<and>
   (CategoricalImputer_fit tie imp Y = Inr imp' \<longrightarrow> CategoricalImputer_fit tie imp' Y = Inr imp') \<and>
   CategoricalImputer_fit tie (imp\<lparr>fill := g\<rparr>) Y = CategoricalImputer_fit tie imp Y \<and>
   (columns imp = Some cs \<and> CategoricalImputer_fit tie imp Y = Inr imp' \<longrightarrow> columns imp' = Some cs)"
proof -
  have "CategoricalEncoder_fit tie (CategoricalEncoder_fit tie enc X) X = CategoricalEncoder_fit tie enc X"
    by (simp add: CategoricalEncoder_fit_def fit_loop_idem)
  then show ?thesis
    using encoder_fit_other [where n = n and X = X and enc = enc and tie = tie] encoder_fit_member [where X = X and c = c and enc = enc and tie = tie]
      imputer_fit_idem [where imp = imp and X = Y and imp' = imp' and tie = tie] imputer_fit_ignores_fill [where imp = imp and g = g and X = Y and tie = tie]
      imputer_fit_keeps_columns [where imp = imp and cs = cs and X = Y and imp' = imp' and tie = tie]
    by blast
qed

theorem refit_overwrites_only_present_columns_witness:
  "categories (CategoricalEncoder_fit first_seen (CategoricalEncoder_fit first_seen encoder ex_two) ex_AABC) ''workclass'' =
     categories (CategoricalEncoder_fit first_seen encoder ex_two) ''workclass'' \<and>
   categories (CategoricalEncoder_fit first_seen (CategoricalEncoder_fit first_seen encoder ex_two) ex_sex) ''sex'' =
     Some [StrV ''Female'', StrV ''Other''] \<and>
   (\<exists>imp'. CategoricalImputer_fit first_seen (CategoricalImputer_init None (Interned ''most_frequent'')) ex_AABnull
        = Inr imp' \<and>
      CategoricalImputer_fit first_seen imp' ex_AABnull = Inr imp' \<and> columns imp' = Some [''col'']) \<and>
   (\<exists>imp'. CategoricalImputer_fit first_seen cat_imputer
        [Column ''workclass'' Object [Some (StrV ''Private'')],
         Column ''occupation'' Object [Some (StrV ''Sales'')],
         Column ''native-country'' Object [Some (StrV ''Cuba'')]] = Inr imp' \<and>
      columns imp' = Some missing_cols)"
proof -
  let ?c = "Column ''sex'' Object [Some (StrV ''Female''), Some (StrV ''Other'')]"
  let ?i = "CategoricalImputer_init None (Interned ''most_frequent'')"
  let ?Y = "[Column ''workclass'' Object [Some (StrV ''Private'')],
         Column ''occupation'' Object [Some (StrV ''Sales'')],
         Column ''native-country'' Object [Some (StrV ''Cuba'')]]"
  have a: "categories (CategoricalEncoder_fit first_seen (CategoricalEncoder_fit first_seen encoder ex_two) ex_AABC) ''workclass'' =
     categories (CategoricalEncoder_fit first_seen encoder ex_two) ''workclass''"
    using refit_overwrites_only_present_columns
      [where enc = "CategoricalEncoder_fit first_seen encoder ex_two" and X = ex_AABC and n = "''workclass''"]
    by (simp add: ex_AABC_def select_dtypes_def columns_of_def)
  have b: "categories (CategoricalEncoder_fit first_seen (CategoricalEncoder_fit first_seen encoder ex_two) ex_sex) ''sex'' =
     Some [StrV ''Female'', StrV ''Other'']"
    using refit_overwrites_only_present_columns
      [where enc = "CategoricalEncoder_fit first_seen encoder ex_two" and X = ex_sex and c = ?c]
    by (simp add: ex_sex_def select_dtypes_def wf_table_def value_counts_def Let_def present_def
        index_tolist_def)
  obtain i1 where i1: "CategoricalImputer_fit first_seen ?i ex_AABnull = Inr i1" "columns i1 = Some [''col'']"
    by (simp add: CategoricalImputer_fit_def CategoricalImputer_init_def py_is_def ex_AABnull_def
        columns_of_def index0_def value_counts_def Let_def present_def)
  have c: "CategoricalImputer_fit first_seen i1 ex_AABnull = Inr i1"
    using refit_overwrites_only_present_columns [where imp = ?i and Y = ex_AABnull and imp' = i1] i1
    by simp
  obtain i2 where i2: "CategoricalImputer_fit first_seen cat_imputer ?Y = Inr i2"
    by (simp add: CategoricalImputer_fit_def CategoricalImputer_init_def py_is_def cat_imputer_def
        missing_cols_def index0_def value_counts_def Let_def present_def)
  have d: "columns i2 = Some missing_cols"
    using refit_overwrites_only_present_columns
      [where imp = cat_imputer and Y = ?Y and imp' = i2 and cs = missing_cols] i2
    by (simp add: cat_imputer_def CategoricalImputer_init_def)
  from a b c d i1 i2 show ?thesis by blast
qed

section \<open>An object-typed column the encoder was never fitted on\<close>

text \<open>
  Claim C10. For an encoder fitted any number of times, if the frame given to
  \<^verbatim>\<open>transform\<close> has an object-typed column that was an object-typed column of none
  of the frames it was fitted on, \<^verbatim>\<open>transform\<close> raises KeyError: the column is
  neither ignored nor passed through.
\<close>

theorem encoder_unknown_object_column_KeyError:
  assumes "c \<in> set (select_dtypes Object X)"
    and "\<forall>Xf\<in>set Xs. cname c \<notin> set (columns_of (select_dtypes Object Xf))"
  shows "CategoricalEncoder_transform cn (foldl (CategoricalEncoder_fit tie) (CategoricalEncoder_init d) Xs) X
           = Inl KeyError"
proof -
  let ?enc = "foldl (CategoricalEncoder_fit tie) (CategoricalEncoder_init d) Xs"
  have "categories ?enc (cname c) = categories (CategoricalEncoder_init d) (cname c)"
    using assms(2) by (rule encoder_fits_other)
  then have none: "categories ?enc (cname c) = None"
    by (simp add: CategoricalEncoder_init_def)
  have "\<forall>n ls. categories (CategoricalEncoder_init d) n = Some ls \<longrightarrow> distinct ls"
    by (simp add: CategoricalEncoder_init_def)
  then have "\<forall>n ls. categories ?enc n = Some ls \<longrightarrow> distinct ls"
    using encoder_fits_distinct by blast
  then have "astype_loop (categories ?enc) (select_dtypes Object X) = Inl KeyError"
    using assms(1) none by (rule astype_loop_KeyError)
  then show ?thesis by (simp add: CategoricalEncoder_transform_def)
qed

theorem encoder_unknown_object_column_KeyError_witness:
  "CategoricalEncoder_transform (Some ValueError) (CategoricalEncoder_fit first_seen encoder ex_sex) ex_two
     = Inl KeyError \<and>
   CategoricalEncoder_transform None
       (CategoricalEncoder_fit first_seen (CategoricalEncoder_fit first_seen encoder ex_sex) ex_AABC) ex_two
     = Inl KeyError"
proof -
  let ?c = "Column ''workclass'' Object [Some (StrV ''Private''), None]"
  have h1: "?c \<in> set (select_dtypes Object ex_two)"
    by (simp add: ex_two_def select_dtypes_def)
  have h2: "\<forall>Xf\<in>set [ex_sex]. cname ?c \<notin> set (columns_of (select_dtypes Object Xf))"
    by (auto simp: ex_sex_def select_dtypes_def columns_of_def)
  have h3: "\<forall>Xf\<in>set [ex_sex, ex_AABC]. cname ?c \<notin> set (columns_of (select_dtypes Object Xf))"
    by (auto simp: ex_sex_def ex_AABC_def select_dtypes_def columns_of_def)
  show ?thesis
    using encoder_unknown_object_column_KeyError [OF h1 h2, where cn = "Some ValueError" and d = True]
      encoder_unknown_object_column_KeyError [OF h1 h3, where cn = None and d = True]
    by (simp add: encoder_def)
qed

section \<open>What the encoder's transform returns\<close>

lemma encoder_transform_Inr:
  assumes "CategoricalEncoder_transform cn enc X = Inr Y"
  shows "(\<forall>c\<in>set (select_dtypes Object X). \<exists>ls. categories enc (cname c) = Some ls \<and> distinct ls) \<and>
     Y = concat (map (\<lambda>c. map (indicator (cname c) (cells c))
                (drop (if dropFirst enc then 1 else 0) (the (categories enc (cname c)))))
            (select_dtypes Object X))"
proof -
  let ?cs = "select_dtypes Object X"
  from assms obtain ks where ks: "astype_loop (categories enc) ?cs = Inr ks"
    and Y: "get_dummies cn (dropFirst enc) ks = Inr Y"
    by (auto simp: CategoricalEncoder_transform_def split: sum.splits)
  from ks have ok: "\<forall>c\<in>set ?cs. \<exists>ls. categories enc (cname c) = Some ls \<and> distinct ls"
    and ks_eq: "ks = map (\<lambda>c. coerce (the (categories enc (cname c))) c) ?cs"
    by (simp_all add: astype_loop_Inr)
  have "Y = concat (map (get_dummies_1d (dropFirst enc)) ks)"
    using Y by (cases "ks = []") (auto simp: get_dummies_def split: option.splits)
  then have "Y = concat (map (\<lambda>c. map (indicator (cname c) (cells c))
                (drop (if dropFirst enc then 1 else 0) (the (categories enc (cname c))))) ?cs)"
    by (simp add: ks_eq comp_def get_dummies_1d_coerce)
  with ok show ?thesis by blast
qed

lemma encoder_transform_total:
  assumes "select_dtypes Object X \<noteq> []"
    and "\<forall>c\<in>set (select_dtypes Object X). \<exists>ls. categories enc (cname c) = Some ls \<and> distinct ls"
  shows "\<exists>Y. CategoricalEncoder_transform cn enc X = Inr Y"
proof -
  let ?cs = "select_dtypes Object X"
  let ?ks = "map (\<lambda>c. coerce (the (categories enc (cname c))) c) ?cs"
  have "astype_loop (categories enc) ?cs = Inr ?ks"
    using assms(2) by (simp add: astype_loop_Inr)
  moreover have "?ks \<noteq> []" using assms(1) by simp
  ultimately show ?thesis
    by (simp add: CategoricalEncoder_transform_def get_dummies_def)
qed

lemma cname_indicator: "cname (indicator n xs l) = n @ ''_'' @ py_str l"
  by (simp add: indicator_def)

lemma names_get_dummies_1d:
  "map cname (get_dummies_1d d k) =
   map (\<lambda>l. cat_name k @ ''_'' @ py_str l) (drop (if d then 1 else 0) (cat_levels k))"
  by (simp add: get_dummies_1d_def comp_def cname_indicator)

lemma names_get_dummies_blocks:
  "map cname (concat (map (get_dummies_1d d) xs)) =
   concat (map (\<lambda>p. map (\<lambda>l. fst p @ ''_'' @ py_str l) (drop (if d then 1 else 0) (snd p)))
     (map (\<lambda>k. (cat_name k, cat_levels k)) xs))"
  by (induction xs) (simp_all add: names_get_dummies_1d)

lemma names_get_dummies_schema:
  assumes "map (\<lambda>k. (cat_name k, cat_levels k)) ks = map (\<lambda>k. (cat_name k, cat_levels k)) ks'"
  shows "map_sum id (map cname) (get_dummies cn d ks) = map_sum id (map cname) (get_dummies cn d ks')"
proof (cases "ks = []")
  case True
  with assms have "ks' = []" by simp
  with True show ?thesis by simp
next
  case False
  with assms have ne: "ks' \<noteq> []" by auto
  have "map cname (concat (map (get_dummies_1d d) ks)) =
        map cname (concat (map (get_dummies_1d d) ks'))"
    by (simp only: names_get_dummies_blocks assms)
  with False ne show ?thesis by (simp only: get_dummies_def if_False map_sum.simps id_apply)
qed

lemma encoder_transform_schema:
  assumes "map cname (select_dtypes Object X) = map cname (select_dtypes Object X')"
  shows "map_sum id (map cname) (CategoricalEncoder_transform cn enc X) =
         map_sum id (map cname) (CategoricalEncoder_transform cn enc X')"
proof -
  let ?a = "astype_loop (categories enc) (select_dtypes Object X)"
  let ?b = "astype_loop (categories enc) (select_dtypes Object X')"
  have s: "map_sum id (map (\<lambda>k. (cat_name k, cat_levels k))) ?a =
        map_sum id (map (\<lambda>k. (cat_name k, cat_levels k))) ?b"
    using assms by (rule astype_loop_schema)
  show ?thesis
  proof (cases ?a)
    case (Inl e)
    with s have "?b = Inl e" by (cases ?b) auto
    with Inl show ?thesis by (simp add: CategoricalEncoder_transform_def)
  next
    case (Inr ks)
    with s obtain ks' where b: "?b = Inr ks'"
      and eq: "map (\<lambda>k. (cat_name k, cat_levels k)) ks = map (\<lambda>k. (cat_name k, cat_levels k)) ks'"
      by (cases ?b) auto
    from names_get_dummies_schema [OF eq] Inr b show ?thesis
      by (simp add: CategoricalEncoder_transform_def)
  qed
qed

lemma fit_loop_defined: "n \<in> cname ` set cs \<Longrightarrow> \<exists>ls. fit_loop tie cs m n = Some ls"
proof (induction cs arbitrary: m)
  case Nil
  then show ?case by simp
next
  case (Cons c cs)
  show ?case
  proof (cases "n \<in> cname ` set cs")
    case True
    then show ?thesis using Cons.IH by simp
  next
    case False
    with Cons.prems have "n = cname c" by auto
    with False show ?thesis by (simp add: fit_loop_other)
  qed
qed

lemma encoder_fit_defined:
  "n \<in> set (columns_of (select_dtypes Object X)) \<Longrightarrow>
   \<exists>ls. categories (CategoricalEncoder_fit tie enc X) n = Some ls"
  by (simp add: CategoricalEncoder_fit_def columns_of_def fit_loop_defined)

section \<open>The encoder's output schema\<close>

lemma encoder_transform_blocks:
  assumes "CategoricalEncoder_transform cn enc X = Inr Y"
  shows "Y = concat (map (\<lambda>c. case categories enc (cname c) of
                         None \<Rightarrow> []
                       | Some ls \<Rightarrow> map (indicator (cname c) (cells c))
                                     (drop (if dropFirst enc then 1 else 0) ls))
               (select_dtypes Object X))"
proof -
  from encoder_transform_Inr [OF assms]
  have ok: "\<forall>c\<in>set (select_dtypes Object X). \<exists>ls. categories enc (cname c) = Some ls \<and> distinct ls"
    and Y: "Y = concat (map (\<lambda>c. map (indicator (cname c) (cells c))
                (drop (if dropFirst enc then 1 else 0) (the (categories enc (cname c)))))
            (select_dtypes Object X))"
    by blast+
  have "map (\<lambda>c. map (indicator (cname c) (cells c))
                (drop (if dropFirst enc then 1 else 0) (the (categories enc (cname c)))))
            (select_dtypes Object X) =
        map (\<lambda>c. case categories enc (cname c) of
                         None \<Rightarrow> []
                       | Some ls \<Rightarrow> map (indicator (cname c) (cells c))
                                     (drop (if dropFirst enc then 1 else 0) ls))
               (select_dtypes Object X)"
  proof (rule map_cong [OF refl])
    fix c
    assume "c \<in> set (select_dtypes Object X)"
    with ok obtain ls where "categories enc (cname c) = Some ls" by blast
    then show "map (indicator (cname c) (cells c))
                (drop (if dropFirst enc then 1 else 0) (the (categories enc (cname c)))) =
           (case categories enc (cname c) of
                         None \<Rightarrow> []
                       | Some ls \<Rightarrow> map (indicator (cname c) (cells c))
                                     (drop (if dropFirst enc then 1 else 0) ls))"
      by simp
  qed
  then show ?thesis unfolding Y by (rule arg_cong)
qed

lemma encoder_fitted_transform_returns:
  assumes ne: "select_dtypes Object X \<noteq> []"
    and seen: "\<forall>k\<in>set (select_dtypes Object X). cname k \<in> set (columns_of (select_dtypes Object Xf))"
  shows "\<exists>Y. CategoricalEncoder_transform cn
              (CategoricalEncoder_fit tie (CategoricalEncoder_init d) Xf) X = Inr Y"
proof -
  let ?enc = "CategoricalEncoder_fit tie (CategoricalEncoder_init d) Xf"
  have inv: "\<forall>n ls. categories (CategoricalEncoder_init d) n = Some ls \<longrightarrow> distinct ls"
    by (simp add: CategoricalEncoder_init_def)
  have "\<forall>k\<in>set (select_dtypes Object X). \<exists>ls. categories ?enc (cname k) = Some ls \<and> distinct ls"
  proof
    fix k
    assume "k \<in> set (select_dtypes Object X)"
    with seen have "cname k \<in> set (columns_of (select_dtypes Object Xf))" by blast
    then obtain ls where ls: "categories ?enc (cname k) = Some ls"
      using encoder_fit_defined by blast
    with inv have "distinct ls" by (rule encoder_fit_distinct)
    with ls show "\<exists>ls. categories ?enc (cname k) = Some ls \<and> distinct ls" by blast
  qed
  with ne show ?thesis by (rule encoder_transform_total)
qed

lemma encoder_fitted_transform_blocks:
  assumes ne: "select_dtypes Object X \<noteq> []"
    and seen: "\<forall>k\<in>set (select_dtypes Object X). cname k \<in> set (columns_of (select_dtypes Object Xf))"
  shows "CategoricalEncoder_transform cn (CategoricalEncoder_fit tie (CategoricalEncoder_init d) Xf) X =
     Inr (concat (map (\<lambda>k. case categories (CategoricalEncoder_fit tie (CategoricalEncoder_init d) Xf)
                                 (cname k) of
                         None \<Rightarrow> []
                       | Some ls \<Rightarrow> map (indicator (cname k) (cells k)) (drop (if d then 1 else 0) ls))
               (select_dtypes Object X)))"
proof -
  let ?enc = "CategoricalEncoder_fit tie (CategoricalEncoder_init d) Xf"
  from encoder_fitted_transform_returns [OF ne seen]
  obtain Y where Y: "CategoricalEncoder_transform cn ?enc X = Inr Y" ..
  have dF: "dropFirst ?enc = d"
    by (simp add: encoder_fit_dropFirst CategoricalEncoder_init_def)
  from encoder_transform_blocks [OF Y] Y show ?thesis
    by (simp only: dF)
qed

text \<open>
  Claim C5 as stated has the fit-time vocabulary alone determine the output columns, for
  every input. One encoder, fitted once on the columns \<open>workclass\<close> and \<open>sex\<close>, gives
  three different lists of output columns on three inputs: the frame it was fitted on, a
  frame that has only \<open>sex\<close>, and the fitted frame with its two columns in the other
  order.
\<close>

theorem encoder_schema_depends_on_input_counterexample:
  "map_sum id (map cname)
     (CategoricalEncoder_transform (Some ValueError)
        (CategoricalEncoder_fit first_seen (CategoricalEncoder_init False) ex_two) ex_two) =
     Inr [''workclass_Private'', ''sex_Male'', ''sex_Female''] \<and>
   map_sum id (map cname)
     (CategoricalEncoder_transform (Some ValueError)
        (CategoricalEncoder_fit first_seen (CategoricalEncoder_init False) ex_two) ex_sex) =
     Inr [''sex_Male'', ''sex_Female''] \<and>
   map_sum id (map cname)
     (CategoricalEncoder_transform (Some ValueError)
        (CategoricalEncoder_fit first_seen (CategoricalEncoder_init False) ex_two) (rev ex_two)) =
     Inr [''sex_Male'', ''sex_Female'', ''workclass_Private'']"
  by (simp add: CategoricalEncoder_transform_def CategoricalEncoder_fit_def
      CategoricalEncoder_init_def ex_two_def ex_sex_def select_dtypes_def value_counts_def Let_def
      present_def index_tolist_def astype_category_def get_dummies_def get_dummies_1d_coerce
      cname_indicator)

text \<open>
  Claim C5, amended. The output columns of \<^verbatim>\<open>transform\<close> are determined by the
  fit-time vocabulary together with the names and the order of the object-typed columns
  of the input, and never by the values of the input. When \<^verbatim>\<open>transform\<close> returns,
  every output column is the indicator of one entry of the fit-time vocabulary of an
  object-typed column of the input and is named \<^verbatim>\<open><column>_<category>\<close>, so no new
  indicator column ever appears; the outcome of \<^verbatim>\<open>transform\<close> (the error, or the names
  of the output columns in order) is the same for any two frames with the same
  object-typed column names, whatever their values; every indicator that is not dropped
  is in the output and holds 1 in the rows whose value is its entry and 0 in the others,
  so a row whose value is not in the vocabulary (unseen at fit time, or missing) holds 0
  in every indicator of its column; \<^verbatim>\<open>transform\<close> of an encoder fitted on a frame
  with distinct column names returns, whatever the values, on every frame that has an
  object-typed column and only object-typed columns seen at fit time; and the output is,
  for each object-typed column of the input in order, the indicators of that column's
  vocabulary in vocabulary order, without the first when \<^verbatim>\<open>dropFirst\<close> is set.
\<close>

theorem encoder_output_fixed_by_vocabulary:
  "(CategoricalEncoder_transform cn enc X = Inr Y \<longrightarrow>
      (\<forall>y\<in>set Y. \<exists>c ls l. c \<in> set (select_dtypes Object X) \<and>
          categories enc (cname c) = Some ls \<and> l \<in> set ls \<and>
          y = indicator (cname c) (cells c) l \<and> cname y = cname c @ ''_'' @ py_str l)) \<and>
   (map cname (select_dtypes Object X) = map cname (select_dtypes Object X') \<longrightarrow>
      map_sum id (map cname) (CategoricalEncoder_transform cn enc X) =
      map_sum id (map cname) (CategoricalEncoder_transform cn enc X')) \<and>
   (CategoricalEncoder_transform cn enc X = Inr Y \<and> c \<in> set (select_dtypes Object X) \<and>
    categories enc (cname c) = Some ls \<and> i < length (cells c) \<longrightarrow>
      (\<forall>l\<in>set (drop (if dropFirst enc then 1 else 0) ls).
          indicator (cname c) (cells c) l \<in> set Y \<and>
          cells (indicator (cname c) (cells c) l) ! i =
            Some (NumV (if cells c ! i = Some l then 1 else 0)))) \<and>
   (CategoricalEncoder_transform cn enc X = Inr Y \<and> c \<in> set (select_dtypes Object X) \<and>
    categories enc (cname c) = Some ls \<and> i < length (cells c) \<and> cells c ! i \<notin> Some ` set ls \<longrightarrow>
      (\<forall>l\<in>set (drop (if dropFirst enc then 1 else 0) ls).
          indicator (cname c) (cells c) l \<in> set Y \<and>
          cells (indicator (cname c) (cells c) l) ! i = Some (NumV 0))) \<and>
   (wf_table Xf \<and> select_dtypes Object X \<noteq> [] \<and>
    (\<forall>c\<in>set (select_dtypes Object X). cname c \<in> set (columns_of (select_dtypes Object Xf))) \<longrightarrow>
      (\<exists>Y. CategoricalEncoder_transform cn
              (CategoricalEncoder_fit tie (CategoricalEncoder_init d) Xf) X = Inr Y)) \<and>
   (CategoricalEncoder_transform cn enc X = Inr Y \<longrightarrow>
      Y = concat (map (\<lambda>c. case categories enc (cname c) of
                            None \<Rightarrow> []
                          | Some ls \<Rightarrow> map (indicator (cname c) (cells c))
                                        (drop (if dropFirst enc then 1 else 0) ls))
                  (select_dtypes Object X)))"
proof -
  have a: "\<forall>y\<in>set Y. \<exists>c ls l. c \<in> set (select_dtypes Object X) \<and>
          categories enc (cname c) = Some ls \<and> l \<in> set ls \<and>
          y = indicator (cname c) (cells c) l \<and> cname y = cname c @ ''_'' @ py_str l"
    if t: "CategoricalEncoder_transform cn enc X = Inr Y"
  proof
    fix y
    assume y: "y \<in> set Y"
    from encoder_transform_Inr [OF t]
    have ok: "\<forall>c\<in>set (select_dtypes Object X). \<exists>ls. categories enc (cname c) = Some ls \<and> distinct ls"
      and Y: "Y = concat (map (\<lambda>c. map (indicator (cname c) (cells c))
                (drop (if dropFirst enc then 1 else 0) (the (categories enc (cname c)))))
            (select_dtypes Object X))"
      by blast+
    from y Y obtain c l where c: "c \<in> set (select_dtypes Object X)"
      and l: "l \<in> set (drop (if dropFirst enc then 1 else 0) (the (categories enc (cname c))))"
      and yl: "y = indicator (cname c) (cells c) l"
      by auto
    from ok c obtain ls where ls: "categories enc (cname c) = Some ls" by blast
    with l have "l \<in> set ls" by (auto dest: in_set_dropD)
    with c ls yl show "\<exists>c ls l. c \<in> set (select_dtypes Object X) \<and>
          categories enc (cname c) = Some ls \<and> l \<in> set ls \<and>
          y = indicator (cname c) (cells c) l \<and> cname y = cname c @ ''_'' @ py_str l"
      by (auto simp: cname_indicator)
  qed
  have b: "map_sum id (map cname) (CategoricalEncoder_transform cn enc X) =
      map_sum id (map cname) (CategoricalEncoder_transform cn enc X')"
    if "map cname (select_dtypes Object X) = map cname (select_dtypes Object X')"
    using that by (rule encoder_transform_schema)
  have pt: "\<forall>l\<in>set (drop (if dropFirst enc then 1 else 0) ls).
          indicator (cname c) (cells c) l \<in> set Y \<and>
          cells (indicator (cname c) (cells c) l) ! i =
            Some (NumV (if cells c ! i = Some l then 1 else 0))"
    if t: "CategoricalEncoder_transform cn enc X = Inr Y" and c: "c \<in> set (select_dtypes Object X)"
      and ls: "categories enc (cname c) = Some ls" and i: "i < length (cells c)"
  proof
    fix l
    assume l: "l \<in> set (drop (if dropFirst enc then 1 else 0) ls)"
    from encoder_transform_Inr [OF t]
    have Y: "Y = concat (map (\<lambda>c. map (indicator (cname c) (cells c))
                (drop (if dropFirst enc then 1 else 0) (the (categories enc (cname c)))))
            (select_dtypes Object X))"
      by blast
    have mem: "indicator (cname c) (cells c) l \<in> set Y"
      unfolding Y using c l ls by force
    from i have "cells (indicator (cname c) (cells c) l) ! i =
            Some (NumV (if cells c ! i = Some l then 1 else 0))"
      by (simp add: indicator_def)
    with mem show "indicator (cname c) (cells c) l \<in> set Y \<and>
          cells (indicator (cname c) (cells c) l) ! i =
            Some (NumV (if cells c ! i = Some l then 1 else 0))" ..
  qed
  have c': "\<forall>l\<in>set (drop (if dropFirst enc then 1 else 0) ls).
          indicator (cname c) (cells c) l \<in> set Y \<and>
          cells (indicator (cname c) (cells c) l) ! i = Some (NumV 0)"
    if t: "CategoricalEncoder_transform cn enc X = Inr Y" and c: "c \<in> set (select_dtypes Object X)"
      and ls: "categories enc (cname c) = Some ls" and i: "i < length (cells c)"
      and unseen: "cells c ! i \<notin> Some ` set ls"
  proof
    fix l
    assume l: "l \<in> set (drop (if dropFirst enc then 1 else 0) ls)"
    then have "l \<in> set ls" by (rule in_set_dropD)
    with unseen have "cells c ! i \<noteq> Some l" by auto
    with pt [OF t c ls i] l show "indicator (cname c) (cells c) l \<in> set Y \<and>
          cells (indicator (cname c) (cells c) l) ! i = Some (NumV 0)"
      by simp
  qed
  have d: "\<exists>Y. CategoricalEncoder_transform cn
              (CategoricalEncoder_fit tie (CategoricalEncoder_init d) Xf) X = Inr Y"
    if "select_dtypes Object X \<noteq> []"
      and "\<forall>c\<in>set (select_dtypes Object X). cname c \<in> set (columns_of (select_dtypes Object Xf))"
    using that by (rule encoder_fitted_transform_returns)
  have e: "Y = concat (map (\<lambda>c. case categories enc (cname c) of
                            None \<Rightarrow> []
                          | Some ls \<Rightarrow> map (indicator (cname c) (cells c))
                                        (drop (if dropFirst enc then 1 else 0) ls))
                  (select_dtypes Object X))"
    if "CategoricalEncoder_transform cn enc X = Inr Y"
    using that by (rule encoder_transform_blocks)
  from a b pt c' d e show ?thesis by blast
qed

theorem encoder_output_fixed_by_vocabulary_witness:
  "CategoricalEncoder_transform None
       (CategoricalEncoder_fit first_seen (CategoricalEncoder_init False) ex_AABC) ex_unseen =
     Inr [Column ''col_A'' UInt8 [Some (NumV 0), Some (NumV 0)],
          Column ''col_B'' UInt8 [Some (NumV 0), Some (NumV 1)],
          Column ''col_C'' UInt8 [Some (NumV 0), Some (NumV 0)]] \<and>
   map_sum id (map cname) (CategoricalEncoder_transform None
       (CategoricalEncoder_fit first_seen (CategoricalEncoder_init False) ex_AABC) ex_unseen) =
   map_sum id (map cname) (CategoricalEncoder_transform None
       (CategoricalEncoder_fit first_seen (CategoricalEncoder_init False) ex_AABC) ex_AABC) \<and>
   cells (indicator ''col'' [Some (StrV ''D''), Some (StrV ''B'')] (StrV ''A'')) ! 0 = Some (NumV 0) \<and>
   cells (indicator ''col'' [Some (StrV ''D''), Some (StrV ''B'')] (StrV ''B'')) ! 0 = Some (NumV 0) \<and>
   cells (indicator ''col'' [Some (StrV ''D''), Some (StrV ''B'')] (StrV ''C'')) ! 0 = Some (NumV 0) \<and>
   cells (indicator ''col'' [Some (StrV ''D''), Some (StrV ''B'')] (StrV ''B'')) ! 1 = Some (NumV 1) \<and>
   (\<exists>Y. CategoricalEncoder_transform (Some ValueError)
          (CategoricalEncoder_fit first_seen (CategoricalEncoder_init True) ex_AABC) ex_unseen = Inr Y)"
proof -
  let ?enc = "CategoricalEncoder_fit first_seen (CategoricalEncoder_init False) ex_AABC"
  let ?c = "Column ''col'' Object [Some (StrV ''D''), Some (StrV ''B'')]"
  let ?ls = "[StrV ''A'', StrV ''B'', StrV ''C'']"
  let ?Y = "[Column ''col_A'' UInt8 [Some (NumV 0), Some (NumV 0)],
          Column ''col_B'' UInt8 [Some (NumV 0), Some (NumV 1)],
          Column ''col_C'' UInt8 [Some (NumV 0), Some (NumV 0)]]"
  have t: "CategoricalEncoder_transform None ?enc ex_unseen = Inr ?Y"
    by (simp add: CategoricalEncoder_transform_def CategoricalEncoder_fit_def
        CategoricalEncoder_init_def ex_AABC_def ex_unseen_def select_dtypes_def value_counts_def
        Let_def present_def index_tolist_def astype_category_def coerce_def get_dummies_def
        get_dummies_1d_def indicator_def)
  have n: "map cname (select_dtypes Object ex_unseen) = map cname (select_dtypes Object ex_AABC)"
    by (simp add: ex_unseen_def ex_AABC_def select_dtypes_def)
  have c: "?c \<in> set (select_dtypes Object ex_unseen)"
    by (simp add: ex_unseen_def select_dtypes_def)
  have ls: "categories ?enc (cname ?c) = Some ?ls"
    by (simp add: CategoricalEncoder_fit_def CategoricalEncoder_init_def ex_AABC_def
        select_dtypes_def value_counts_def Let_def present_def index_tolist_def)
  have i0: "0 < length (cells ?c)" and i1: "1 < length (cells ?c)" by simp_all
  have u: "cells ?c ! 0 \<notin> Some ` set ?ls" by simp
  have d: "dropFirst ?enc = False"
    by (simp add: CategoricalEncoder_fit_def CategoricalEncoder_init_def)
  have same: "map_sum id (map cname) (CategoricalEncoder_transform None ?enc ex_unseen) =
      map_sum id (map cname) (CategoricalEncoder_transform None ?enc ex_AABC)"
    using encoder_output_fixed_by_vocabulary
        [where cn = None and enc = ?enc and X = ex_unseen and X' = ex_AABC,
          THEN conjunct2, THEN conjunct1] n
    by (rule mp)
  have "\<forall>l\<in>set (drop (if dropFirst ?enc then 1 else 0) ?ls).
      indicator (cname ?c) (cells ?c) l \<in> set ?Y \<and>
      cells (indicator (cname ?c) (cells ?c) l) ! 1 =
        Some (NumV (if cells ?c ! 1 = Some l then 1 else 0))"
    using encoder_output_fixed_by_vocabulary
        [where cn = None and enc = ?enc and X = ex_unseen and Y = ?Y and c = ?c and ls = ?ls
           and i = 1, THEN conjunct2, THEN conjunct2, THEN conjunct1] t c ls i1
    by (rule mp [OF _ conjI [OF _ conjI [OF _ conjI]]])
  then have one: "cells (indicator ''col'' [Some (StrV ''D''), Some (StrV ''B'')] (StrV ''B'')) ! 1 =
      Some (NumV 1)"
    by (simp add: d)
  have "\<forall>l\<in>set (drop (if dropFirst ?enc then 1 else 0) ?ls).
      indicator (cname ?c) (cells ?c) l \<in> set ?Y \<and>
      cells (indicator (cname ?c) (cells ?c) l) ! 0 = Some (NumV 0)"
    using encoder_output_fixed_by_vocabulary
        [where cn = None and enc = ?enc and X = ex_unseen and Y = ?Y and c = ?c and ls = ?ls
           and i = 0, THEN conjunct2, THEN conjunct2, THEN conjunct2, THEN conjunct1] t c ls i0 u
    by (rule mp [OF _ conjI [OF _ conjI [OF _ conjI [OF _ conjI]]]])
  then have zeros: "cells (indicator ''col'' [Some (StrV ''D''), Some (StrV ''B'')] (StrV ''A'')) ! 0 = Some (NumV 0)"
    "cells (indicator ''col'' [Some (StrV ''D''), Some (StrV ''B'')] (StrV ''B'')) ! 0 = Some (NumV 0)"
    "cells (indicator ''col'' [Some (StrV ''D''), Some (StrV ''B'')] (StrV ''C'')) ! 0 = Some (NumV 0)"
    by (simp_all add: d)
  have wf: "wf_table ex_AABC" by (simp add: wf_table_def ex_AABC_def)
  have ne: "select_dtypes Object ex_unseen \<noteq> []"
    by (simp add: ex_unseen_def select_dtypes_def)
  have seen: "\<forall>c\<in>set (select_dtypes Object ex_unseen).
      cname c \<in> set (columns_of (select_dtypes Object ex_AABC))"
    by (simp add: ex_unseen_def ex_AABC_def select_dtypes_def columns_of_def)
  have tot: "\<exists>Y. CategoricalEncoder_transform (Some ValueError)
          (CategoricalEncoder_fit first_seen (CategoricalEncoder_init True) ex_AABC) ex_unseen = Inr Y"
    using encoder_output_fixed_by_vocabulary
        [where X = ex_unseen and Xf = ex_AABC and cn = "Some ValueError" and d = True
           and tie = first_seen,
          THEN conjunct2, THEN conjunct2, THEN conjunct2, THEN conjunct2, THEN conjunct1] wf ne seen
    by (rule mp [OF _ conjI [OF _ conjI]])
  from t same zeros one tot show ?thesis by (intro conjI)
qed

section \<open>Vocabulary order and indicator columns\<close>

lemma vocab_AABC:
  "index_tolist (value_counts tie [Some (StrV ''A''), Some (StrV ''A''), Some (StrV ''B''), Some (StrV ''C'')])
     = [StrV ''A'', StrV ''B'', StrV ''C'']"
  by (simp add: value_counts_def Let_def present_def index_tolist_def)

lemma categories_fit_AABC:
  "categories (CategoricalEncoder_fit tie (CategoricalEncoder_init d) ex_AABC) =
     [''col'' \<mapsto> [StrV ''A'', StrV ''B'', StrV ''C'']]"
  by (simp add: CategoricalEncoder_fit_def CategoricalEncoder_init_def ex_AABC_def
      select_dtypes_def vocab_AABC)

lemma transform_AABC:
  "CategoricalEncoder_transform cn (CategoricalEncoder_fit tie (CategoricalEncoder_init d) ex_AABC) ex_AABC =
     Inr (map (indicator ''col'' [Some (StrV ''A''), Some (StrV ''A''), Some (StrV ''B''), Some (StrV ''C'')])
            (drop (if d then 1 else 0) [StrV ''A'', StrV ''B'', StrV ''C'']))"
proof -
  let ?enc = "CategoricalEncoder_fit tie (CategoricalEncoder_init d) ex_AABC"
  let ?c = "Column ''col'' Object [Some (StrV ''A''), Some (StrV ''A''), Some (StrV ''B''), Some (StrV ''C'')]"
  have sel: "select_dtypes Object ex_AABC = [?c]"
    by (simp add: ex_AABC_def select_dtypes_def)
  have dF: "dropFirst ?enc = d"
    by (simp add: encoder_fit_dropFirst CategoricalEncoder_init_def)
  have "astype_loop (categories ?enc) [?c] = Inr [coerce [StrV ''A'', StrV ''B'', StrV ''C''] ?c]"
    by (simp add: categories_fit_AABC astype_category_def)
  then show ?thesis
    by (simp add: CategoricalEncoder_transform_def sel dF get_dummies_def get_dummies_1d_coerce)
qed

lemma encoder_transform_names:
  assumes "CategoricalEncoder_transform cn enc X = Inr Y"
  shows "map cname Y =
     concat (map (\<lambda>c. case categories enc (cname c) of
                         None \<Rightarrow> []
                       | Some ls \<Rightarrow> map (\<lambda>l. cname c @ ''_'' @ py_str l)
                                     (drop (if dropFirst enc then 1 else 0) ls))
               (select_dtypes Object X))"
proof -
  have "map cname (concat (map (\<lambda>c. case categories enc (cname c) of
                         None \<Rightarrow> []
                       | Some ls \<Rightarrow> map (indicator (cname c) (cells c))
                                     (drop (if dropFirst enc then 1 else 0) ls)) cs)) =
     concat (map (\<lambda>c. case categories enc (cname c) of
                         None \<Rightarrow> []
                       | Some ls \<Rightarrow> map (\<lambda>l. cname c @ ''_'' @ py_str l)
                                     (drop (if dropFirst enc then 1 else 0) ls)) cs)" for cs
    by (induction cs) (simp_all add: cname_indicator split: option.splits)
  with encoder_transform_blocks [OF assms] show ?thesis by simp
qed

text \<open>
  Claim C6. \<^verbatim>\<open>fit\<close> stores, for every object-typed column of a frame with distinct
  column names, the list of the column's distinct non-missing values ordered by
  descending frequency, whatever order equally frequent values come in, and stores
  nothing for other names. When \<^verbatim>\<open>transform\<close> returns, its output is, for each
  object-typed column of the input in order, one indicator column per vocabulary entry
  in vocabulary order, without the first entry when \<^verbatim>\<open>dropFirst\<close> is set, and the
  names of the output columns are \<^verbatim>\<open><column>_<category>\<close> in that order. The
  indicator column of an entry is named \<^verbatim>\<open><column>_<category>\<close>, has dtype uint8 and
  as many rows as the column, and holds 1 in the rows whose value is the entry and 0 in
  all others. Fitted and applied to the values A, A, B, C the encoder gives the columns
  \<open>col_A\<close> = 1, 1, 0, 0, \<open>col_B\<close> = 0, 0, 1, 0 and \<open>col_C\<close> = 0, 0, 0, 1 without
  \<^verbatim>\<open>dropFirst\<close>, and \<open>col_B\<close> and \<open>col_C\<close> alone with it.
\<close>

theorem encoder_vocabulary_and_indicator_names:
  "(wf_table X \<and> c \<in> set (select_dtypes Object X) \<longrightarrow>
      (\<exists>vs. categories (CategoricalEncoder_fit tie enc X) (cname c) = Some vs \<and>
         vs = index_tolist (value_counts tie (cells c)) \<and> distinct vs \<and>
         set vs = {v. Some v \<in> set (cells c)} \<and>
         sorted_wrt (\<lambda>a b. count_list (cells c) (Some b) \<le> count_list (cells c) (Some a)) vs)) \<and>
   (n \<notin> set (columns_of (select_dtypes Object X)) \<longrightarrow>
      categories (CategoricalEncoder_fit tie (CategoricalEncoder_init d) X) n = None) \<and>
   (CategoricalEncoder_transform cn enc X = Inr Y \<longrightarrow>
      Y = concat (map (\<lambda>c. case categories enc (cname c) of
                            None \<Rightarrow> []
                          | Some ls \<Rightarrow> map (indicator (cname c) (cells c))
                                        (drop (if dropFirst enc then 1 else 0) ls))
                  (select_dtypes Object X)) \<and>
      map cname Y =
        concat (map (\<lambda>c. case categories enc (cname c) of
                            None \<Rightarrow> []
                          | Some ls \<Rightarrow> map (\<lambda>l. cname c @ ''_'' @ py_str l)
                                        (drop (if dropFirst enc then 1 else 0) ls))
                  (select_dtypes Object X))) \<and>
   (cname (indicator nm xs (StrV s)) = nm @ ''_'' @ s \<and> ctype (indicator nm xs l) = UInt8 \<and>
    length (cells (indicator nm xs l)) = length xs \<and>
    (\<forall>i<length xs. cells (indicator nm xs l) ! i = Some (NumV (if xs ! i = Some l then 1 else 0)))) \<and>
   CategoricalEncoder_transform cn (CategoricalEncoder_fit tie (CategoricalEncoder_init False) ex_AABC) ex_AABC
     = Inr [Column ''col_A'' UInt8 [Some (NumV 1), Some (NumV 1), Some (NumV 0), Some (NumV 0)],
            Column ''col_B'' UInt8 [Some (NumV 0), Some (NumV 0), Some (NumV 1), Some (NumV 0)],
            Column ''col_C'' UInt8 [Some (NumV 0), Some (NumV 0), Some (NumV 0), Some (NumV 1)]] \<and>
   CategoricalEncoder_transform cn (CategoricalEncoder_fit tie (CategoricalEncoder_init True) ex_AABC) ex_AABC
     = Inr [Column ''col_B'' UInt8 [Some (NumV 0), Some (NumV 0), Some (NumV 1), Some (NumV 0)],
            Column ''col_C'' UInt8 [Some (NumV 0), Some (NumV 0), Some (NumV 0), Some (NumV 1)]]"
proof -
  have a: "\<exists>vs. categories (CategoricalEncoder_fit tie enc X) (cname c) = Some vs \<and>
         vs = index_tolist (value_counts tie (cells c)) \<and> distinct vs \<and>
         set vs = {v. Some v \<in> set (cells c)} \<and>
         sorted_wrt (\<lambda>a b. count_list (cells c) (Some b) \<le> count_list (cells c) (Some a)) vs"
    if "wf_table X" "c \<in> set (select_dtypes Object X)"
    using encoder_fit_member [OF that, where enc = enc and tie = tie] distinct_vocab [where xs = "cells c" and tie = tie]
      set_vocab [where xs = "cells c" and tie = tie] sorted_vocab [where xs = "cells c" and tie = tie]
    by simp
  have b: "categories (CategoricalEncoder_fit tie (CategoricalEncoder_init d) X) n = None"
    if "n \<notin> set (columns_of (select_dtypes Object X))"
    using encoder_fit_other [OF that, where enc = "CategoricalEncoder_init d" and tie = tie]
    by (simp add: CategoricalEncoder_init_def)
  have c: "Y = concat (map (\<lambda>c. case categories enc (cname c) of
                            None \<Rightarrow> []
                          | Some ls \<Rightarrow> map (indicator (cname c) (cells c))
                                        (drop (if dropFirst enc then 1 else 0) ls))
                  (select_dtypes Object X)) \<and>
      map cname Y =
        concat (map (\<lambda>c. case categories enc (cname c) of
                            None \<Rightarrow> []
                          | Some ls \<Rightarrow> map (\<lambda>l. cname c @ ''_'' @ py_str l)
                                        (drop (if dropFirst enc then 1 else 0) ls))
                  (select_dtypes Object X))"
    if "CategoricalEncoder_transform cn enc X = Inr Y"
    using encoder_transform_blocks [OF that] encoder_transform_names [OF that] by (rule conjI)
  have i: "cname (indicator nm xs (StrV s)) = nm @ ''_'' @ s \<and> ctype (indicator nm xs l) = UInt8 \<and>
    length (cells (indicator nm xs l)) = length xs \<and>
    (\<forall>i<length xs. cells (indicator nm xs l) ! i = Some (NumV (if xs ! i = Some l then 1 else 0)))"
    by (simp add: indicator_def)
  have d: "CategoricalEncoder_transform cn (CategoricalEncoder_fit tie (CategoricalEncoder_init False) ex_AABC) ex_AABC
     = Inr [Column ''col_A'' UInt8 [Some (NumV 1), Some (NumV 1), Some (NumV 0), Some (NumV 0)],
            Column ''col_B'' UInt8 [Some (NumV 0), Some (NumV 0), Some (NumV 1), Some (NumV 0)],
            Column ''col_C'' UInt8 [Some (NumV 0), Some (NumV 0), Some (NumV 0), Some (NumV 1)]]"
    by (simp add: transform_AABC indicator_def)
  have e: "CategoricalEncoder_transform cn (CategoricalEncoder_fit tie (CategoricalEncoder_init True) ex_AABC) ex_AABC
     = Inr [Column ''col_B'' UInt8 [Some (NumV 0), Some (NumV 0), Some (NumV 1), Some (NumV 0)],
            Column ''col_C'' UInt8 [Some (NumV 0), Some (NumV 0), Some (NumV 0), Some (NumV 1)]]"
    by (simp add: transform_AABC indicator_def)
  from a b c i d e show ?thesis by blast
qed

theorem encoder_vocabulary_and_indicator_names_witness:
  "categories (CategoricalEncoder_fit first_seen encoder ex_two) ''sex'' = Some [StrV ''Male'', StrV ''Female''] \<and>
   categories (CategoricalEncoder_fit first_seen (CategoricalEncoder_init False) ex_mixed) ''age'' = None \<and>
   CategoricalEncoder_transform None (CategoricalEncoder_fit first_seen encoder ex_two) ex_sex =
     Inr [Column ''sex_Female'' UInt8 [Some (NumV 1), Some (NumV 0)]] \<and>
   [Column ''sex_Female'' UInt8 [Some (NumV 1), Some (NumV 0)]] =
     [indicator ''sex'' [Some (StrV ''Female''), Some (StrV ''Other'')] (StrV ''Female'')] \<and>
   map cname [Column ''sex_Female'' UInt8 [Some (NumV 1), Some (NumV 0)]] = [''sex_Female''] \<and>
   cells (indicator ''col'' [Some (StrV ''A''), Some (StrV ''A''), Some (StrV ''B''), Some (StrV ''C'')]
            (StrV ''B'')) ! 2 = Some (NumV 1) \<and>
   cells (indicator ''col'' [Some (StrV ''A''), Some (StrV ''A''), Some (StrV ''B''), Some (StrV ''C'')]
            (StrV ''B'')) ! 3 = Some (NumV 0)"
proof -
  let ?c = "Column ''sex'' Object [Some (StrV ''Male''), Some (StrV ''Female'')]"
  let ?enc = "CategoricalEncoder_fit first_seen encoder ex_two"
  let ?Y = "[Column ''sex_Female'' UInt8 [Some (NumV 1), Some (NumV 0)]]"
  let ?xs = "[Some (StrV ''A''), Some (StrV ''A''), Some (StrV ''B''), Some (StrV ''C'')]"
  have wf: "wf_table ex_two" by (simp add: wf_table_def ex_two_def)
  have c: "?c \<in> set (select_dtypes Object ex_two)" by (simp add: ex_two_def select_dtypes_def)
  have "\<exists>vs. categories ?enc (cname ?c) = Some vs \<and>
         vs = index_tolist (value_counts first_seen (cells ?c)) \<and> distinct vs \<and>
         set vs = {v. Some v \<in> set (cells ?c)} \<and>
         sorted_wrt (\<lambda>a b. count_list (cells ?c) (Some b) \<le> count_list (cells ?c) (Some a)) vs"
    using encoder_vocabulary_and_indicator_names
        [where X = ex_two and c = ?c and enc = encoder and tie = first_seen, THEN conjunct1] wf c
    by (rule mp [OF _ conjI])
  then have "categories ?enc (cname ?c) = Some (index_tolist (value_counts first_seen (cells ?c)))"
    by (elim exE conjE) simp
  then have a: "categories ?enc ''sex'' = Some [StrV ''Male'', StrV ''Female'']"
    by (simp add: value_counts_def Let_def present_def index_tolist_def)
  have n: "''age'' \<notin> set (columns_of (select_dtypes Object ex_mixed))"
    by (simp add: ex_mixed_def select_dtypes_def columns_of_def)
  have b: "categories (CategoricalEncoder_fit first_seen (CategoricalEncoder_init False) ex_mixed) ''age'' = None"
    using encoder_vocabulary_and_indicator_names
        [where X = ex_mixed and n = "''age''" and d = False and tie = first_seen,
          THEN conjunct2, THEN conjunct1] n
    by (rule mp)
  have dF: "dropFirst ?enc = True"
    by (simp add: encoder_fit_dropFirst encoder_def CategoricalEncoder_init_def)
  have sel: "select_dtypes Object ex_sex = [Column ''sex'' Object [Some (StrV ''Female''), Some (StrV ''Other'')]]"
    by (simp add: ex_sex_def select_dtypes_def)
  have t: "CategoricalEncoder_transform None ?enc ex_sex = Inr ?Y"
    by (simp add: CategoricalEncoder_transform_def sel a astype_category_def dF get_dummies_def
        get_dummies_1d_coerce indicator_def)
  have blocks: "?Y = concat (map (\<lambda>c. case categories ?enc (cname c) of
                            None \<Rightarrow> []
                          | Some ls \<Rightarrow> map (indicator (cname c) (cells c))
                                        (drop (if dropFirst ?enc then 1 else 0) ls))
                  (select_dtypes Object ex_sex)) \<and>
      map cname ?Y =
        concat (map (\<lambda>c. case categories ?enc (cname c) of
                            None \<Rightarrow> []
                          | Some ls \<Rightarrow> map (\<lambda>l. cname c @ ''_'' @ py_str l)
                                        (drop (if dropFirst ?enc then 1 else 0) ls))
                  (select_dtypes Object ex_sex))"
    using encoder_vocabulary_and_indicator_names
        [where cn = None and enc = ?enc and X = ex_sex and Y = ?Y,
          THEN conjunct2, THEN conjunct2, THEN conjunct1] t
    by (rule mp)
  from blocks [THEN conjunct1]
  have y: "?Y = [indicator ''sex'' [Some (StrV ''Female''), Some (StrV ''Other'')] (StrV ''Female'')]"
    by (simp add: sel a dF)
  from blocks [THEN conjunct2]
  have nms: "map cname ?Y = [''sex_Female'']"
    by simp
  have ind: "\<forall>i<length ?xs. cells (indicator ''col'' ?xs (StrV ''B'')) ! i =
      Some (NumV (if ?xs ! i = Some (StrV ''B'') then 1 else 0))"
    using encoder_vocabulary_and_indicator_names
        [where nm = "''col''" and xs = ?xs and l = "StrV ''B''" and s = "''B''",
          THEN conjunct2, THEN conjunct2, THEN conjunct2, THEN conjunct1,
          THEN conjunct2, THEN conjunct2, THEN conjunct2]
    by this
  from ind [rule_format, where i = 2]
  have i2: "cells (indicator ''col'' ?xs (StrV ''B'')) ! 2 = Some (NumV 1)" by simp
  from ind [rule_format, where i = 3]
  have i3: "cells (indicator ''col'' ?xs (StrV ''B'')) ! 3 = Some (NumV 0)" by simp
  from a b t y nms i2 i3 show ?thesis by (intro conjI)
qed

section \<open>A frame that lacks a column seen at fit time\<close>

lemma astype_loop_cong:
  "(\<forall>k\<in>set cs. m (cname k) = m' (cname k)) \<Longrightarrow> astype_loop m cs = astype_loop m' cs"
  by (induction cs) (simp_all split: option.splits sum.splits)

lemma encoder_transform_cong:
  assumes "\<forall>k\<in>set (select_dtypes Object X). categories enc (cname k) = categories enc' (cname k)"
    and "dropFirst enc = dropFirst enc'"
  shows "CategoricalEncoder_transform cn enc X = CategoricalEncoder_transform cn enc' X"
  using astype_loop_cong [OF assms(1)] assms(2)
  by (simp add: CategoricalEncoder_transform_def split: sum.splits)

lemma imputer_fitted_missing_column:
  assumes "CategoricalImputer_fit tie imp0 Xf = Inr imp" and "columns imp = Some cs"
    and "c \<in> set cs" and "c \<notin> set (columns_of X)"
  shows "CategoricalImputer_transform imp X = Inl KeyError"
proof -
  from imputer_fit_fill_dom [OF assms(1)] assms(2)
  obtain f where f: "fill imp = Some f" "set cs \<subseteq> dom f"
    by auto
  from assms(4) have "c \<notin> cname ` set X" by (simp add: columns_of_def)
  with f(2) assms(3) have "impute_loop (Some f) X cs = Inl KeyError"
    by (rule impute_loop_KeyError)
  with f(1) assms(2) show ?thesis by (simp add: CategoricalImputer_transform_def)
qed

lemma encoder_fitted_vocabularies:
  assumes wf: "wf_table Xf"
    and seen: "\<forall>k\<in>set (select_dtypes Object X). cname k \<in> set (columns_of (select_dtypes Object Xf))"
  shows "\<forall>k\<in>set (select_dtypes Object X). \<exists>g\<in>set (select_dtypes Object Xf). cname g = cname k \<and>
      categories (CategoricalEncoder_fit tie (CategoricalEncoder_init d) Xf) (cname k) =
        Some (index_tolist (value_counts tie (cells g)))"
proof
  fix k
  assume "k \<in> set (select_dtypes Object X)"
  with seen have "cname k \<in> set (columns_of (select_dtypes Object Xf))" by blast
  then obtain g where g: "g \<in> set (select_dtypes Object Xf)" and n: "cname g = cname k"
    by (auto simp: columns_of_def)
  from encoder_fit_member [OF wf g, where tie = tie and enc = "CategoricalEncoder_init d"] n
  have "categories (CategoricalEncoder_fit tie (CategoricalEncoder_init d) Xf) (cname k) =
        Some (index_tolist (value_counts tie (cells g)))"
    by simp
  with g n show "\<exists>g\<in>set (select_dtypes Object Xf). cname g = cname k \<and>
      categories (CategoricalEncoder_fit tie (CategoricalEncoder_init d) Xf) (cname k) =
        Some (index_tolist (value_counts tie (cells g)))"
    by blast
qed

text \<open>
  Claim C8 as stated asks both transformers to fail on a frame that lacks a fit-time
  column. The encoder fitted on the columns \<open>workclass\<close> and \<open>sex\<close> and applied to a
  frame that has only \<open>sex\<close> returns the indicators of \<open>sex\<close>.
\<close>

theorem encoder_missing_column_returns_counterexample:
  "CategoricalEncoder_transform (Some ValueError) (CategoricalEncoder_fit first_seen encoder ex_two) ex_sex =
     Inr [Column ''sex_Female'' UInt8 [Some (NumV 1), Some (NumV 0)]]"
  by (simp add: CategoricalEncoder_transform_def CategoricalEncoder_fit_def encoder_def
      CategoricalEncoder_init_def ex_two_def ex_sex_def select_dtypes_def value_counts_def Let_def
      present_def index_tolist_def astype_category_def get_dummies_def get_dummies_1d_coerce
      indicator_def)

text \<open>
  Claim C8, amended. \<^verbatim>\<open>transform\<close> of a fitted CategoricalImputer raises KeyError,
  and returns no frame, when the input lacks one of its columns. \<^verbatim>\<open>transform\<close> of a
  CategoricalEncoder looks only at the object-typed columns the input has: two encoder
  states that agree on the vocabularies of those columns give the same outcome; and on
  every input that has an object-typed column and only object-typed columns seen at fit
  time, also when fit-time columns are absent from it, an encoder fitted on a frame with
  distinct column names holds for each of those columns the vocabulary of the fit-time
  column of that name and returns exactly their indicator columns: for each object-typed
  column of the input in order, one indicator per entry of its vocabulary, without the
  first when \<^verbatim>\<open>dropFirst\<close> is set. An indicator column is named
  \<^verbatim>\<open><column>_<category>\<close>, has dtype uint8 and as many rows as the column, and holds
  1 in the rows whose value is its entry and 0 in all others.
\<close>

theorem missing_column_imputer_raises_encoder_ignores:
  "(CategoricalImputer_fit tie imp0 Xf = Inr imp \<and> columns imp = Some cs \<and> c \<in> set cs \<and>
    c \<notin> set (columns_of X) \<longrightarrow> CategoricalImputer_transform imp X = Inl KeyError) \<and>
   ((\<forall>k\<in>set (select_dtypes Object X). categories enc (cname k) = categories enc' (cname k)) \<and>
    dropFirst enc = dropFirst enc' \<longrightarrow>
      CategoricalEncoder_transform cn enc X = CategoricalEncoder_transform cn enc' X) \<and>
   (wf_table Xg \<and> select_dtypes Object X \<noteq> [] \<and>
    (\<forall>k\<in>set (select_dtypes Object X). cname k \<in> set (columns_of (select_dtypes Object Xg))) \<longrightarrow>
      (\<forall>k\<in>set (select_dtypes Object X). \<exists>g\<in>set (select_dtypes Object Xg). cname g = cname k \<and>
          categories (CategoricalEncoder_fit tie (CategoricalEncoder_init d) Xg) (cname k) =
            Some (index_tolist (value_counts tie (cells g)))) \<and>
      CategoricalEncoder_transform cn (CategoricalEncoder_fit tie (CategoricalEncoder_init d) Xg) X =
        Inr (concat (map (\<lambda>k. case categories (CategoricalEncoder_fit tie (CategoricalEncoder_init d) Xg)
                                      (cname k) of
                                 None \<Rightarrow> []
                               | Some ls \<Rightarrow> map (indicator (cname k) (cells k))
                                             (drop (if d then 1 else 0) ls))
                       (select_dtypes Object X)))) \<and>
   (cname (indicator nm xs (StrV s)) = nm @ ''_'' @ s \<and> ctype (indicator nm xs l) = UInt8 \<and>
    length (cells (indicator nm xs l)) = length xs \<and>
    (\<forall>i<length xs. cells (indicator nm xs l) ! i = Some (NumV (if xs ! i = Some l then 1 else 0))))"
proof -
  have a: "CategoricalImputer_transform imp X = Inl KeyError"
    if "CategoricalImputer_fit tie imp0 Xf = Inr imp \<and> columns imp = Some cs \<and> c \<in> set cs \<and>
        c \<notin> set (columns_of X)"
    using that by (elim conjE) (rule imputer_fitted_missing_column)
  have b: "CategoricalEncoder_transform cn enc X = CategoricalEncoder_transform cn enc' X"
    if "(\<forall>k\<in>set (select_dtypes Object X). categories enc (cname k) = categories enc' (cname k)) \<and>
        dropFirst enc = dropFirst enc'"
    using that by (elim conjE) (rule encoder_transform_cong)
  have c: "(\<forall>k\<in>set (select_dtypes Object X). \<exists>g\<in>set (select_dtypes Object Xg). cname g = cname k \<and>
          categories (CategoricalEncoder_fit tie (CategoricalEncoder_init d) Xg) (cname k) =
            Some (index_tolist (value_counts tie (cells g)))) \<and>
      CategoricalEncoder_transform cn (CategoricalEncoder_fit tie (CategoricalEncoder_init d) Xg) X =
        Inr (concat (map (\<lambda>k. case categories (CategoricalEncoder_fit tie (CategoricalEncoder_init d) Xg)
                                      (cname k) of
                                 None \<Rightarrow> []
                               | Some ls \<Rightarrow> map (indicator (cname k) (cells k))
                                             (drop (if d then 1 else 0) ls))
                       (select_dtypes Object X)))"
    if h: "wf_table Xg \<and> select_dtypes Object X \<noteq> [] \<and>
      (\<forall>k\<in>set (select_dtypes Object X). cname k \<in> set (columns_of (select_dtypes Object Xg)))"
    using encoder_fitted_vocabularies [OF h [THEN conjunct1] h [THEN conjunct2, THEN conjunct2]]
      encoder_fitted_transform_blocks
        [OF h [THEN conjunct2, THEN conjunct1] h [THEN conjunct2, THEN conjunct2]]
    by (rule conjI)
  have i: "cname (indicator nm xs (StrV s)) = nm @ ''_'' @ s \<and> ctype (indicator nm xs l) = UInt8 \<and>
    length (cells (indicator nm xs l)) = length xs \<and>
    (\<forall>i<length xs. cells (indicator nm xs l) ! i = Some (NumV (if xs ! i = Some l then 1 else 0)))"
    by (simp add: indicator_def)
  from a b c i show ?thesis by blast
qed

theorem missing_column_imputer_raises_encoder_ignores_witness:
  "(\<exists>imp. CategoricalImputer_fit first_seen (CategoricalImputer_init None (Interned ''most_frequent'')) ex_two
       = Inr imp \<and> CategoricalImputer_transform imp ex_sex = Inl KeyError) \<and>
   CategoricalEncoder_transform None (CategoricalEncoder_fit first_seen encoder ex_two) ex_sex =
     CategoricalEncoder_transform None
       (CategoricalEncoder_fit first_seen encoder
          [Column ''sex'' Object [Some (StrV ''Male''), Some (StrV ''Female'')]]) ex_sex \<and>
   categories (CategoricalEncoder_fit first_seen (CategoricalEncoder_init True) ex_two) ''sex'' =
     Some [StrV ''Male'', StrV ''Female''] \<and>
   CategoricalEncoder_transform None (CategoricalEncoder_fit first_seen (CategoricalEncoder_init True) ex_two)
       ex_sex =
     Inr [Column ''sex_Female'' UInt8 [Some (NumV 1), Some (NumV 0)]] \<and>
   cells (indicator ''sex'' [Some (StrV ''Female''), Some (StrV ''Other'')] (StrV ''Female'')) ! 1 =
     Some (NumV 0)"
proof -
  let ?i0 = "CategoricalImputer_init None (Interned ''most_frequent'')"
  obtain imp where fit: "CategoricalImputer_fit first_seen ?i0 ex_two = Inr imp"
    and cols: "columns imp = Some [''workclass'', ''sex'']"
    by (simp add: CategoricalImputer_fit_def CategoricalImputer_init_def py_is_def ex_two_def
        columns_of_def index0_def value_counts_def Let_def present_def)
  have mem: "''workclass'' \<in> set [''workclass'', ''sex'']" by simp
  have miss: "''workclass'' \<notin> set (columns_of ex_sex)"
    by (simp add: ex_sex_def columns_of_def)
  have a: "CategoricalImputer_transform imp ex_sex = Inl KeyError"
    using missing_column_imputer_raises_encoder_ignores
      [where ?imp0.0 = ?i0 and Xf = ex_two and imp = imp and cs = "[''workclass'', ''sex'']"
         and c = "''workclass''" and X = ex_sex and tie = first_seen, THEN conjunct1]
      fit cols mem miss
    by (rule mp [OF _ conjI [OF _ conjI [OF _ conjI]]])
  from fit a have a': "\<exists>imp. CategoricalImputer_fit first_seen ?i0 ex_two = Inr imp \<and>
      CategoricalImputer_transform imp ex_sex = Inl KeyError"
    by (intro exI conjI)
  let ?e1 = "CategoricalEncoder_fit first_seen encoder ex_two"
  let ?e2 = "CategoricalEncoder_fit first_seen encoder
          [Column ''sex'' Object [Some (StrV ''Male''), Some (StrV ''Female'')]]"
  let ?e3 = "CategoricalEncoder_fit first_seen (CategoricalEncoder_init True) ex_two"
  have sel: "select_dtypes Object ex_sex = ex_sex" by (simp add: ex_sex_def select_dtypes_def)
  have same: "\<forall>k\<in>set (select_dtypes Object ex_sex). categories ?e1 (cname k) = categories ?e2 (cname k)"
    unfolding sel
    by (simp add: CategoricalEncoder_fit_def encoder_def CategoricalEncoder_init_def ex_two_def
        ex_sex_def select_dtypes_def)
  have dF: "dropFirst ?e1 = dropFirst ?e2" by (simp add: encoder_fit_dropFirst)
  have b: "CategoricalEncoder_transform None ?e1 ex_sex = CategoricalEncoder_transform None ?e2 ex_sex"
    using missing_column_imputer_raises_encoder_ignores
      [where enc = ?e1 and enc' = ?e2 and X = ex_sex and cn = None, THEN conjunct2, THEN conjunct1]
      same dF
    by (rule mp [OF _ conjI])
  have wf: "wf_table ex_two" by (simp add: wf_table_def ex_two_def)
  have ne: "select_dtypes Object ex_sex \<noteq> []" by (simp add: ex_sex_def select_dtypes_def)
  have seen: "\<forall>k\<in>set (select_dtypes Object ex_sex). cname k \<in> set (columns_of (select_dtypes Object ex_two))"
    by (simp add: ex_sex_def ex_two_def select_dtypes_def columns_of_def)
  have voc: "categories ?e3 ''sex'' = Some [StrV ''Male'', StrV ''Female'']"
    by (simp add: CategoricalEncoder_fit_def CategoricalEncoder_init_def ex_two_def
        select_dtypes_def value_counts_def Let_def present_def index_tolist_def)
  have c: "(\<forall>k\<in>set (select_dtypes Object ex_sex). \<exists>g\<in>set (select_dtypes Object ex_two).
          cname g = cname k \<and>
          categories ?e3 (cname k) = Some (index_tolist (value_counts first_seen (cells g)))) \<and>
      CategoricalEncoder_transform None ?e3 ex_sex =
        Inr (concat (map (\<lambda>k. case categories ?e3 (cname k) of
                                 None \<Rightarrow> []
                               | Some ls \<Rightarrow> map (indicator (cname k) (cells k))
                                             (drop (if True then 1 else 0) ls))
                       (select_dtypes Object ex_sex)))"
    using missing_column_imputer_raises_encoder_ignores
      [where X = ex_sex and Xg = ex_two and cn = None and d = True and tie = first_seen,
        THEN conjunct2, THEN conjunct2, THEN conjunct1] wf ne seen
    by (rule mp [OF _ conjI [OF _ conjI]])
  from c [THEN conjunct2, unfolded sel]
  have c': "CategoricalEncoder_transform None ?e3 ex_sex =
      Inr [Column ''sex_Female'' UInt8 [Some (NumV 1), Some (NumV 0)]]"
    by (simp add: sel ex_sex_def voc indicator_def)
  let ?xs = "[Some (StrV ''Female''), Some (StrV ''Other'')]"
  have ind: "\<forall>i<length ?xs. cells (indicator ''sex'' ?xs (StrV ''Female'')) ! i =
      Some (NumV (if ?xs ! i = Some (StrV ''Female'') then 1 else 0))"
    using missing_column_imputer_raises_encoder_ignores
        [where nm = "''sex''" and xs = ?xs and l = "StrV ''Female''" and s = "''Female''",
          THEN conjunct2, THEN conjunct2, THEN conjunct2,
          THEN conjunct2, THEN conjunct2, THEN conjunct2]
    by this
  from ind [rule_format, where i = 1]
  have i1: "cells (indicator ''sex'' ?xs (StrV ''Female'')) ! 1 = Some (NumV 0)" by simp
  from a' b voc c' i1 show ?thesis by (intro conjI)
qed

section \<open>The strategy test of the imputer\<close>

text \<open>
  What the imputer does when its strategy is the literal \<^verbatim>\<open>'most_frequent'\<close> itself,
  on frames with distinct column names: the fill map holds, for each target column, a
  non-missing value of that column that no other value outnumbers, \<^verbatim>\<open>fit\<close> returns
  whenever every target column is in the frame and has a non-missing value, and
  \<^verbatim>\<open>transform\<close> applies \<^verbatim>\<open>fillna\<close> to the target columns and leaves the others as
  they were.
\<close>

lemma imputer_fit_most_frequent:
  assumes wf: "wf_table X"
    and s: "strategy imp = Interned ''most_frequent''"
    and fit: "CategoricalImputer_fit tie imp X = Inr imp'"
  shows "\<exists>cs f. columns imp' = Some cs \<and>
      cs = (case columns imp of None \<Rightarrow> columns_of X | Some cs \<Rightarrow> cs) \<and> fill imp' = Some f \<and>
      (\<forall>c\<in>set cs. \<exists>col v. getitem X c = Inr col \<and> f c = Some v \<and> Some v \<in> set (cells col) \<and>
          (\<forall>w. count_list (cells col) (Some w) \<le> count_list (cells col) (Some v)))"
proof -
  let ?cs = "case columns imp of None \<Rightarrow> columns_of X | Some cs \<Rightarrow> cs"
  from s have is_mf: "py_is (strategy imp) ''most_frequent''" by (simp add: py_is_def)
  with fit obtain m where m: "fill_most_frequent tie X ?cs Map.empty = Inr m"
    and imp': "imp' = imp\<lparr>columns := Some ?cs, fill := Some m\<rparr>"
    by (auto simp: CategoricalImputer_fit_def Let_def split: sum.splits)
  have "\<forall>c\<in>set ?cs. \<exists>col v. getitem X c = Inr col \<and> m c = Some v \<and> Some v \<in> set (cells col) \<and>
          (\<forall>w. count_list (cells col) (Some w) \<le> count_list (cells col) (Some v))"
  proof
    fix c
    assume "c \<in> set ?cs"
    with fill_most_frequent_Inr [OF m] obtain col v where col: "getitem X c = Inr col"
      and v: "index0 (value_counts tie (cells col)) = Inr v" and mc: "m c = Some v"
      by blast
    from index0_most_frequent [OF v] col mc
    show "\<exists>col v. getitem X c = Inr col \<and> m c = Some v \<and> Some v \<in> set (cells col) \<and>
          (\<forall>w. count_list (cells col) (Some w) \<le> count_list (cells col) (Some v))"
      by blast
  qed
  with imp' show ?thesis by simp
qed

lemma imputer_fit_total:
  assumes wf: "wf_table X"
    and s: "strategy imp = Interned ''most_frequent''"
    and ok: "\<forall>c\<in>set (case columns imp of None \<Rightarrow> columns_of X | Some cs \<Rightarrow> cs).
               \<exists>col v. getitem X c = Inr col \<and> Some v \<in> set (cells col)"
  shows "\<exists>imp'. CategoricalImputer_fit tie imp X = Inr imp'"
proof -
  from fill_most_frequent_total [OF ok, where ?m0.0 = Map.empty and tie = tie]
  obtain m where "fill_most_frequent tie X (case columns imp of None \<Rightarrow> columns_of X | Some cs \<Rightarrow> cs)
      Map.empty = Inr m" ..
  with s show ?thesis by (simp add: CategoricalImputer_fit_def Let_def py_is_def)
qed

lemma imputer_transform_closed:
  assumes "columns imp = Some cs" and "fill imp = Some f" and "set cs \<subseteq> dom f"
    and "wf_table Y" and "set cs \<subseteq> set (columns_of Y)"
  shows "CategoricalImputer_transform imp Y =
     Inr (map (\<lambda>k. if cname k \<in> set cs then fillna (the (f (cname k))) k else k) Y)"
proof -
  from assms(4) have d: "distinct (map cname Y)" by (simp add: wf_table_def)
  from assms(5) have s: "set cs \<subseteq> cname ` set Y" by (simp add: columns_of_def)
  from impute_loop_closed [OF d s assms(3)] assms(1,2) show ?thesis
    by (simp add: CategoricalImputer_transform_def)
qed

lemma fillna_column:
  "cname (fillna v k) = cname k \<and>
   ctype (fillna v k) =
     (if None \<in> set (cells k) \<and> ctype k \<noteq> Object \<and> \<not> is_number v then Object else ctype k) \<and>
   length (cells (fillna v k)) = length (cells k) \<and>
   (\<forall>j<length (cells k).
      cells (fillna v k) ! j = (if cells k ! j = None then Some v else cells k ! j))"
  by (auto simp: fillna_def in_set_conv_nth split: option.splits)

text \<open>
  A call of \<^verbatim>\<open>fit\<close> that raises has already captured the column list.
\<close>

lemma imputer_columns_after_fit:
  "columns (CategoricalImputer_after_fit tie self X) =
     Some (case columns self of None \<Rightarrow> columns_of X | Some cs \<Rightarrow> cs)"
  by (simp add: CategoricalImputer_after_fit_def CategoricalImputer_fit_def Let_def
      split: sum.splits)

text \<open>
  Claim C7. The docstring of CategoricalImputer has the strategy \<open>most_frequent\<close>
  impute the most frequent value, and so has the claim: fitted on A, A, B, null the
  imputer records A and \<^verbatim>\<open>transform\<close> yields A, A, B, A. \<^verbatim>\<open>fit\<close> tests the strategy
  with \<^verbatim>\<open>is\<close> (line 64), so this holds only when the strategy is the literal object
  itself. For every strategy string that is another object, also one that reads
  \<open>most_frequent\<close>, \<^verbatim>\<open>fit\<close> returns on every frame without reading a value of it
  and records the string \<open>0\<close> for each target column: fitted on A, A, B, null such an
  imputer records \<open>0\<close> and \<^verbatim>\<open>transform\<close> yields A, A, B, \<open>0\<close>, where with the
  literal it records A and yields A, A, B, A.
\<close>

theorem imputer_strategy_compared_by_identity:
  "CategoricalImputer_fit tie (imp\<lparr>strategy := Fresh s\<rparr>) X =
     Inr (imp\<lparr>strategy := Fresh s,
              columns := Some (case columns imp of None \<Rightarrow> columns_of X | Some cs \<Rightarrow> cs),
              fill := Some (fill_zero (case columns imp of None \<Rightarrow> columns_of X | Some cs \<Rightarrow> cs)
                              Map.empty)\<rparr>) \<and>
   fill_zero cs Map.empty c = (if c \<in> set cs then Some (StrV ''0'') else None) \<and>
   CategoricalImputer_fit tie (CategoricalImputer_init None (Fresh ''most_frequent'')) ex_AABnull =
     Inr \<lparr>columns = Some [''col''], strategy = Fresh ''most_frequent'',
          fill = Some [''col'' \<mapsto> StrV ''0'']\<rparr> \<and>
   CategoricalImputer_transform
       \<lparr>columns = Some [''col''], strategy = Fresh ''most_frequent'',
        fill = Some [''col'' \<mapsto> StrV ''0'']\<rparr> ex_AABnull =
     Inr [Column ''col'' Object
            [Some (StrV ''A''), Some (StrV ''A''), Some (StrV ''B''), Some (StrV ''0'')]] \<and>
   CategoricalImputer_fit tie (CategoricalImputer_init None (Interned ''most_frequent'')) ex_AABnull =
     Inr \<lparr>columns = Some [''col''], strategy = Interned ''most_frequent'',
          fill = Some [''col'' \<mapsto> StrV ''A'']\<rparr> \<and>
   CategoricalImputer_transform
       \<lparr>columns = Some [''col''], strategy = Interned ''most_frequent'',
        fill = Some [''col'' \<mapsto> StrV ''A'']\<rparr> ex_AABnull =
     Inr [Column ''col'' Object
            [Some (StrV ''A''), Some (StrV ''A''), Some (StrV ''B''), Some (StrV ''A'')]]"
proof -
  have a: "CategoricalImputer_fit tie (imp\<lparr>strategy := Fresh s\<rparr>) X =
     Inr (imp\<lparr>strategy := Fresh s,
              columns := Some (case columns imp of None \<Rightarrow> columns_of X | Some cs \<Rightarrow> cs),
              fill := Some (fill_zero (case columns imp of None \<Rightarrow> columns_of X | Some cs \<Rightarrow> cs)
                              Map.empty)\<rparr>)"
    by (simp add: CategoricalImputer_fit_def Let_def py_is_def)
  have b: "fill_zero cs Map.empty c = (if c \<in> set cs then Some (StrV ''0'') else None)"
    by (simp add: fill_zero_apply)
  have c: "CategoricalImputer_fit tie (CategoricalImputer_init None (Fresh ''most_frequent'')) ex_AABnull =
     Inr \<lparr>columns = Some [''col''], strategy = Fresh ''most_frequent'',
          fill = Some [''col'' \<mapsto> StrV ''0'']\<rparr>"
    by (simp add: CategoricalImputer_fit_def CategoricalImputer_init_def py_is_def ex_AABnull_def
        columns_of_def)
  have d: "CategoricalImputer_transform
       \<lparr>columns = Some [''col''], strategy = Fresh ''most_frequent'',
        fill = Some [''col'' \<mapsto> StrV ''0'']\<rparr> ex_AABnull =
     Inr [Column ''col'' Object
            [Some (StrV ''A''), Some (StrV ''A''), Some (StrV ''B''), Some (StrV ''0'')]]"
    by (simp add: CategoricalImputer_transform_def ex_AABnull_def fillna_def)
  have e: "CategoricalImputer_fit tie (CategoricalImputer_init None (Interned ''most_frequent'')) ex_AABnull =
     Inr \<lparr>columns = Some [''col''], strategy = Interned ''most_frequent'',
          fill = Some [''col'' \<mapsto> StrV ''A'']\<rparr>"
    by (simp add: CategoricalImputer_fit_def CategoricalImputer_init_def py_is_def ex_AABnull_def
        columns_of_def index0_def value_counts_def Let_def present_def)
  have f: "CategoricalImputer_transform
       \<lparr>columns = Some [''col''], strategy = Interned ''most_frequent'',
        fill = Some [''col'' \<mapsto> StrV ''A'']\<rparr> ex_AABnull =
     Inr [Column ''col'' Object
            [Some (StrV ''A''), Some (StrV ''A''), Some (StrV ''B''), Some (StrV ''A'')]]"
    by (simp add: CategoricalImputer_transform_def ex_AABnull_def fillna_def)
  from a b c d e f show ?thesis by (intro conjI)
qed

end
